theory Spec2Isabelle
  imports Main
begin

section \<open>Numbers and strings of the source language\<close>

text \<open>
  The source is TypeScript. Its \<open>number\<close> is an IEEE 754 double; the only numbers the
  duration parser produces are non-negative integral doubles and \<open>+Infinity\<close>.
  \<open>to_number\<close> is the conversion of a mathematical natural number to the nearest
  double (round to nearest, ties to even, overflow to infinity), which is what
  \<open>parseInt\<close> and \<open>*\<close> apply to their exact results. (Beyond 20 significant digits
  the language lets \<open>parseInt\<close> approximate further; the model rounds correctly there
  too.) Naturals up to \<open>MAX_SAFE_INTEGER\<close> are doubles themselves. Strings are lists of
  8-bit characters, and \<open>\d\<close> matches the ten ASCII digits.
\<close>

datatype number = Finite nat | PosInfinity

fun bit_length :: "nat \<Rightarrow> nat" where
  "bit_length n = (if n = 0 then 0 else Suc (bit_length (n div 2)))"

declare bit_length.simps [simp del]

definition to_number :: "nat \<Rightarrow> number" where
  "to_number n =
     (let e = bit_length n - 53 in
      if e = 0 then Finite n
      else
        let q = n div 2 ^ e;
            r = n mod 2 ^ e;
            h = 2 ^ (e - 1);
            q' = (if h < r \<or> (r = h \<and> odd q) then q + 1 else q);
            v = q' * 2 ^ e
        in if 2 ^ 1024 \<le> v then PosInfinity else Finite v)"

text \<open>\<open>a * k\<close> for a double \<open>a\<close> and a small positive integer constant \<open>k\<close>.\<close>

fun num_times :: "number \<Rightarrow> nat \<Rightarrow> number" where
  "num_times (Finite a) k = to_number (a * k)"
| "num_times PosInfinity k = PosInfinity"

definition MAX_SAFE_INTEGER :: nat where
  "MAX_SAFE_INTEGER = 2 ^ 53 - 1"

definition is_digit :: "char \<Rightarrow> bool" where
  "is_digit c = (48 \<le> (of_char c :: nat) \<and> (of_char c :: nat) \<le> 57)"

definition digit_value :: "char \<Rightarrow> nat" where
  "digit_value c = of_char c - 48"

definition digit_char :: "nat \<Rightarrow> char" where
  "digit_char d = char_of (48 + d)"

text \<open>The decimal numeral of a natural number, as a template literal prints it.\<close>

fun decimal :: "nat \<Rightarrow> string" where
  "decimal n = (if n < 10 then [digit_char n] else decimal (n div 10) @ [digit_char (n mod 10)])"

declare decimal.simps [simp del]

definition digits_value :: "string \<Rightarrow> nat" where
  "digits_value ds = foldl (\<lambda>a c. 10 * a + digit_value c) 0 ds"

text \<open>\<open>parseInt(value, 10)\<close> on a non-empty string of decimal digits.\<close>

definition parseInt10 :: "string \<Rightarrow> number" where
  "parseInt10 ds = to_number (digits_value ds)"

definition starts_with :: "string \<Rightarrow> string \<Rightarrow> bool" where
  "starts_with s p = (take (length p) s = p)"

section \<open>The duration parser\<close>

text \<open>
  \<open>duration.match(/^(\d+)(ms|s|m)$/)\<close>: the longest run of leading digits, non-empty,
  followed by exactly one of the three units. No unit starts with a digit, so a shorter
  run of digits never matches where the longest does not.
\<close>

definition match_timeRegex :: "string \<Rightarrow> (string \<times> string) option" where
  "match_timeRegex duration =
     (let v = takeWhile is_digit duration;
          u = dropWhile is_digit duration
      in if v \<noteq> [] \<and> (u = ''ms'' \<or> u = ''s'' \<or> u = ''m'') then Some (v, u) else None)"

definition parseTimeDuration :: "string \<Rightarrow> number option" where
  "parseTimeDuration duration =
     (case match_timeRegex duration of
        None \<Rightarrow> None
      | Some (v, u) \<Rightarrow>
          (let numValue = parseInt10 v in
           if u = ''ms'' then Some numValue
           else if u = ''s'' then Some (num_times numValue 1000)
           else if u = ''m'' then Some (num_times (num_times numValue 60) 1000)
           else None))"

section \<open>The wait-directive parser\<close>

datatype thrown = Error string | NonError

datatype wait_config = WaitTime number | WaitSelector string

definition invalid_time_message :: "string \<Rightarrow> string" where
  "invalid_time_message w =
     ''Invalid time duration format: '' @ w @
     ''. Expected format: time:Xs, time:Xms, or time:Xm''"

definition after_first_colon :: "string \<Rightarrow> string" where
  "after_first_colon w =
     (if CHR '':'' \<in> set w
      then drop (length (takeWhile (\<lambda>c. c \<noteq> CHR '':'') w) + 1) w
      else w)"

definition parseWaitParameter :: "string \<Rightarrow> thrown + wait_config" where
  "parseWaitParameter w =
     (if starts_with w ''time:'' then
        (case parseTimeDuration (drop 5 w) of
           None \<Rightarrow> Inl (Error (invalid_time_message w))
         | Some duration \<Rightarrow> Inr (WaitTime duration))
      else if starts_with w ''selector:'' \<or> starts_with w ''css:'' then
        Inr (WaitSelector (after_first_colon w))
      else
        (case parseTimeDuration w of
           Some duration \<Rightarrow> Inr (WaitTime duration)
         | None \<Rightarrow>
             if starts_with w ''#'' \<or> starts_with w ''.'' then Inr (WaitSelector w)
             else Inr (WaitSelector w)))"

section \<open>Requests, configuration and collaborators\<close>

text \<open>
  \<open>OpenCommandOptions\<close> is declared outside the source file; its fields are taken from
  their uses in \<open>execute\<close>. An absent field is \<open>None\<close>. The code tests \<open>url\<close>,
  \<open>connectTo\<close>, \<open>video\<close>, \<open>viewport\<close>, \<open>wait\<close> and \<open>screenshot\<close> for truthiness, so
  an empty string and the number 0 count as absent there.
\<close>

record options =
  url :: "string option"
  connectTo :: "nat option"
  video :: "string option"
  html :: "bool option"
  network :: "bool option"
  console :: "bool option"
  viewport :: "string option"
  headless :: "bool option"
  timeout :: "nat option"
  wait :: "string option"
  screenshot :: "string option"

text \<open>\<open>this.config.browser?.x\<close>: \<open>None\<close> when \<open>browser\<close> or the field is undefined.\<close>

record config =
  browser_headless :: "bool option"
  browser_defaultViewport :: "string option"
  browser_timeout :: "nat option"

definition truthy_string :: "string option \<Rightarrow> bool" where
  "truthy_string x = (case x of None \<Rightarrow> False | Some s \<Rightarrow> s \<noteq> [])"

definition truthy_number :: "nat option \<Rightarrow> bool" where
  "truthy_number x = (case x of None \<Rightarrow> False | Some n \<Rightarrow> n \<noteq> 0)"

text \<open>\<open>error instanceof Error ? error.message : 'Unknown error'\<close>\<close>

fun error_message :: "thrown \<Rightarrow> string" where
  "error_message (Error m) = m"
| "error_message NonError = ''Unknown error''"

datatype page = Page (page_id: nat) (page_url: string)

datatype browser_context = Context (pages: "page list")

datatype browser_handle = Launched | Connected nat

datatype timer = Timer number

text \<open>
  The outcome of every call into a collaborator (the automation engine, the collectors,
  the capture helpers) is a parameter of the run: \<open>Some e\<close> or \<open>Inl e\<close> when the call
  throws \<open>e\<close>, otherwise its result. \<open>outputMessages\<close> is a generator: it yields some
  messages and may then throw. \<open>isNaN_Number s\<close> is \<open>isNaN(Number(s))\<close>.
\<close>

record env =
  ensurePlaywright :: "thrown option"
  ensurePlaywrightBrowsers :: "thrown option"
  connectOverCDP :: "thrown option"
  contexts :: "browser_context list"
  newContext :: "thrown option"
  newPage :: "thrown + page"
  setViewportSize :: "thrown option"
  isNaN_Number :: "string \<Rightarrow> bool"
  launch :: "thrown option"
  setupVideoRecording :: "thrown + string option"
  setupConsoleLogging :: "thrown + string list"
  setupNetworkMonitoring :: "thrown + string list"
  reload :: "thrown option"
  goto :: "thrown option"
  waitForLoadState :: "thrown option"
  waitForSelector :: "thrown option"
  outputMessages :: "string list \<Rightarrow> string list \<Rightarrow> options \<Rightarrow> string list \<times> thrown option"
  content :: "thrown + string"
  captureScreenshot :: "thrown option"
  stopVideoRecording :: "thrown + string option"
  close :: "thrown option"

section \<open>The progress sequence and the trace of a run\<close>

datatype message =
    Usage
  | Connecting nat
  | UsingExistingPage
  | LaunchingBrowser
  | InvalidViewport string
  | UsingCurrentPage string
  | ReloadingCurrentPage string
  | NavigatingTo string
  | PageLoadedWaiting
  | NetworkIdleTimedOut
  | WaitError string
  | Diagnostic string
  | HtmlBegin
  | HtmlContent string
  | HtmlEnd
  | ScreenshotSaved string
  | BrowserCommandError string
  | VideoMessage string
  | BrowserClosed
  | PlaywrightCheckError string

text \<open>The string each progress item is yielded as.\<close>

fun render :: "message \<Rightarrow> string" where
  "render Usage =
     ''Please provide a URL to open. Usage: vibe-tools browser open <url> [options]''"
| "render (Connecting port) =
     ''Connecting to existing Chrome instance on port '' @ decimal port @ ''...''"
| "render UsingExistingPage = ''Using existing page...''"
| "render LaunchingBrowser = ''Launching browser...''"
| "render (InvalidViewport v) =
     ''Invalid viewport format: '' @ v @
     ''. Expected format: <width>x<height> (e.g. 1280x720)''"
| "render (UsingCurrentPage u) = ''Using current page at '' @ u @ ''...''"
| "render (ReloadingCurrentPage u) = ''Reloading current page at '' @ u @ ''...''"
| "render (NavigatingTo u) = ''Navigating to '' @ u @ ''...''"
| "render PageLoadedWaiting = ''Page loaded, waiting for networkidle...''"
| "render NetworkIdleTimedOut =
     ''Timed out waiting for networkidle, continuing with page as it is''"
| "render (WaitError m) = ''Wait error: '' @ m @ [CHR 0x0A]"
| "render (Diagnostic m) = m"
| "render HtmlBegin = [CHR 0x0A] @ ''--- Page HTML Content ---'' @ [CHR 0x0A, CHR 0x0A]"
| "render (HtmlContent c) = c"
| "render HtmlEnd = [CHR 0x0A] @ ''--- End of HTML Content ---'' @ [CHR 0x0A]"
| "render (ScreenshotSaved p) = ''Screenshot saved to '' @ p @ [CHR 0x0A]"
| "render (BrowserCommandError m) = ''Browser command error: '' @ m"
| "render (VideoMessage m) = m"
| "render BrowserClosed = ''Browser closed.'' @ [CHR 0x0A]"
| "render (PlaywrightCheckError m) = ''Playwright check error: '' @ m"

datatype call =
    EnsurePlaywright
  | EnsurePlaywrightBrowsers
  | ConnectOverCDP nat
  | Launch bool
  | SetupVideoRecording
  | NewContext "string option option"
  | NewPage
  | SetViewportSize string string
  | SetupConsoleLogging
  | SetupNetworkMonitoring
  | Reload nat
  | Goto string nat
  | WaitForLoadState nat
  | SetTimeout number
  | WaitForSelector string nat
  | ClearTimeout timer
  | OutputMessages
  | PageContent
  | CaptureScreenshot
  | StopVideoRecording page string
  | BrowserClose browser_handle

datatype log_line =
    LogVideoPath "string option"
  | LogMonitoringWarning
  | LogWaiting wait_config

text \<open>
  A run leaves a trace: the items it yields, the collaborator calls it makes (recorded
  when made, whether or not they then throw), the lines it prints with \<open>console.log\<close>,
  and the firing of the timer a timed wait suspends on.
\<close>

datatype event = Yield message | Call call | Log log_line | TimerFired timer

text \<open>
  The variables of \<open>execute\<close> that live across its \<open>try\<close> blocks (\<open>ctx\<close> is the
  source's \<open>context\<close>), and the trace so far.
\<close>

record state =
  events :: "event list"
  timeouts :: "timer list"
  browser :: "browser_handle option"
  ctx :: "browser_context option"
  page :: "page option"
  consoleMessages :: "string list"
  networkMessages :: "string list"
  videoPath :: "string option"

definition initial_state :: state where
  "initial_state =
     \<lparr>events = [], timeouts = [], browser = None, ctx = None, page = None,
      consoleMessages = [], networkMessages = [], videoPath = None\<rparr>"

section \<open>Control flow\<close>

text \<open>
  A piece of the generator's body takes the state and returns the new state together
  with \<open>Some e\<close> if it threw \<open>e\<close> and \<open>None\<close> if it completed.
\<close>

type_synonym step = "state \<Rightarrow> thrown option \<times> state"

definition skip :: step where
  "skip s = (None, s)"

definition throw :: "thrown \<Rightarrow> step" where
  "throw e s = (Some e, s)"

definition emit :: "event \<Rightarrow> step" where
  "emit ev s = (None, s\<lparr>events := events s @ [ev]\<rparr>)"

definition yield :: "message \<Rightarrow> step" where
  "yield m = emit (Yield m)"

definition console_log :: "log_line \<Rightarrow> step" where
  "console_log l = emit (Log l)"

definition assign :: "(state \<Rightarrow> state) \<Rightarrow> step" where
  "assign f s = (None, f s)"

definition read :: "(state \<Rightarrow> 'a) \<Rightarrow> ('a \<Rightarrow> step) \<Rightarrow> step" where
  "read g k s = k (g s) s"

text \<open>\<open>await c\<close> for a call without a result, and for one whose result is used.\<close>

definition await :: "call \<Rightarrow> thrown option \<Rightarrow> step" where
  "await c outcome s = (outcome, s\<lparr>events := events s @ [Call c]\<rparr>)"

definition await_value :: "call \<Rightarrow> thrown + 'a \<Rightarrow> ('a \<Rightarrow> step) \<Rightarrow> step" where
  "await_value c outcome k s =
     (case outcome of
        Inl e \<Rightarrow> (Some e, s\<lparr>events := events s @ [Call c]\<rparr>)
      | Inr v \<Rightarrow> k v (s\<lparr>events := events s @ [Call c]\<rparr>))"

fun steps :: "step list \<Rightarrow> step" where
  "steps [] s = (None, s)"
| "steps (f # fs) s =
     (case f s of (None, s') \<Rightarrow> steps fs s' | (Some e, s') \<Rightarrow> (Some e, s'))"

definition try_catch :: "step \<Rightarrow> (thrown \<Rightarrow> step) \<Rightarrow> step" where
  "try_catch f h s = (case f s of (None, s') \<Rightarrow> (None, s') | (Some e, s') \<Rightarrow> h e s')"

definition try_finally :: "step \<Rightarrow> step \<Rightarrow> step" where
  "try_finally f g s =
     (case f s of (r, s') \<Rightarrow>
        (case g s' of (None, s'') \<Rightarrow> (r, s'') | (Some e, s'') \<Rightarrow> (Some e, s'')))"


section \<open>The open command\<close>

text \<open>
  \<open>OpenCommand.execute\<close>, in the order of the source. Calls to \<open>debug\<close> only print and
  are left out. The generator is run to its end: the consumer reads every item.
\<close>

definition connect_mode :: "options \<Rightarrow> bool" where
  "connect_mode opts = truthy_number (connectTo opts)"

text \<open>\<open>options.timeout ?? this.config.browser?.timeout ?? 30000\<close>\<close>

definition effective_timeout :: "config \<Rightarrow> options \<Rightarrow> nat" where
  "effective_timeout cfg opts =
     (case timeout opts of
        Some t \<Rightarrow> t
      | None \<Rightarrow> (case browser_timeout cfg of Some t \<Rightarrow> t | None \<Rightarrow> 30000))"

text \<open>\<open>options.headless !== undefined ? options.headless : (this.config.browser?.headless ?? true)\<close>\<close>

definition effective_headless :: "config \<Rightarrow> options \<Rightarrow> bool" where
  "effective_headless cfg opts =
     (case headless opts of
        Some h \<Rightarrow> h
      | None \<Rightarrow> (case browser_headless cfg of Some h \<Rightarrow> h | None \<Rightarrow> True))"

definition video_conflict_message :: string where
  "video_conflict_message =
     ''Cannot use --video when connecting to an existing Chrome instance (--connect-to). '' @
     ''Video recording is only available when launching a new browser instance.''"

definition null_page_error :: thrown where
  "null_page_error = Error ''Cannot read properties of null''"

text \<open>A method call on \<open>page\<close>, which throws when \<open>page\<close> is still \<open>null\<close>.\<close>

definition on_page :: "(page \<Rightarrow> step) \<Rightarrow> step" where
  "on_page k = read page (\<lambda>p. case p of None \<Rightarrow> throw null_page_error | Some pg \<Rightarrow> k pg)"

text \<open>The three fields given a default once the request is validated.\<close>

definition with_defaults :: "options \<Rightarrow> options" where
  "with_defaults opts =
     opts\<lparr>html := Some (case html opts of None \<Rightarrow> False | Some b \<Rightarrow> b),
          network := Some (case network opts of None \<Rightarrow> True | Some b \<Rightarrow> b),
          console := Some (case console opts of None \<Rightarrow> True | Some b \<Rightarrow> b)\<rparr>"

fun split_on :: "char \<Rightarrow> string \<Rightarrow> string list" where
  "split_on c [] = [[]]"
| "split_on c (x # xs) =
     (if x = c then [] # split_on c xs
      else (case split_on c xs of [] \<Rightarrow> [[x]] | p # ps \<Rightarrow> (x # p) # ps))"

text \<open>
  \<open>const [width, height] = v.split('x').map(Number)\<close> followed by
  \<open>!isNaN(width) && !isNaN(height)\<close>: a missing second part is \<open>undefined\<close>, hence NaN.
  The two numbers are kept as the substrings \<open>Number\<close> is applied to.
\<close>

definition viewport_size :: "env \<Rightarrow> string \<Rightarrow> (string \<times> string) option" where
  "viewport_size env v =
     (case split_on (CHR ''x'') v of
        w # h # _ \<Rightarrow>
          if \<not> isNaN_Number env w \<and> \<not> isNaN_Number env h then Some (w, h) else None
      | _ \<Rightarrow> None)"

text \<open>
  \<open>pages.find((p) => !p.url().startsWith('chrome://')) || pages[pages.length - 1]\<close>;
  \<open>undefined\<close> on an empty array is \<open>None\<close>.
\<close>

definition select_existing_page :: "page list \<Rightarrow> page option" where
  "select_existing_page ps =
     (case find (\<lambda>p. \<not> starts_with (page_url p) ''chrome://'') ps of
        Some p \<Rightarrow> Some p
      | None \<Rightarrow> (if ps = [] then None else Some (last ps)))"

text \<open>The \<open>recordVideo\<close> argument of \<open>newContext\<close>: \<open>undefined\<close>, or a directory.\<close>

definition recordVideo :: "options \<Rightarrow> string option \<Rightarrow> string option option" where
  "recordVideo opts vp = (if truthy_string (video opts) then Some vp else None)"

text \<open>Connect mode: attach to the browser, take its first context or make one, pick a page.\<close>

definition connect_browser :: "env \<Rightarrow> nat \<Rightarrow> step" where
  "connect_browser env port =
     steps [
       yield (Connecting port),
       await (ConnectOverCDP port) (connectOverCDP env),
       assign (\<lambda>s. s\<lparr>browser := Some (Connected port)\<rparr>)]"

definition attach_context :: "env \<Rightarrow> options \<Rightarrow> step" where
  "attach_context env opts =
     (case contexts env of
        c # _ \<Rightarrow> assign (\<lambda>s. s\<lparr>ctx := Some c\<rparr>)
      | [] \<Rightarrow>
          steps [
            read videoPath (\<lambda>vp. await (NewContext (recordVideo opts vp)) (newContext env)),
            assign (\<lambda>s. s\<lparr>ctx := Some (Context [])\<rparr>)])"

definition choose_page :: "env \<Rightarrow> step" where
  "choose_page env =
     read ctx (\<lambda>c.
       let ps = (case c of None \<Rightarrow> [] | Some cx \<Rightarrow> pages cx) in
       if length ps > 0 then
         steps [
           assign (\<lambda>s. s\<lparr>page := select_existing_page ps\<rparr>),
           yield UsingExistingPage]
       else
         await_value NewPage (newPage env) (\<lambda>p. assign (\<lambda>s. s\<lparr>page := Some p\<rparr>)))"

definition connect_viewport :: "env \<Rightarrow> options \<Rightarrow> step" where
  "connect_viewport env opts =
     (case viewport opts of
        None \<Rightarrow> skip
      | Some v \<Rightarrow>
          if v = [] then skip
          else
            (case viewport_size env v of
               Some (w, h) \<Rightarrow> on_page (\<lambda>_. await (SetViewportSize w h) (setViewportSize env))
             | None \<Rightarrow> skip))"

definition acquire_connect :: "env \<Rightarrow> options \<Rightarrow> nat \<Rightarrow> step" where
  "acquire_connect env opts port =
     steps [
       connect_browser env port,
       attach_context env opts,
       choose_page env,
       connect_viewport env opts]"

text \<open>Launch mode: start a browser, make its one context and one page.\<close>

definition launch_browser :: "config \<Rightarrow> env \<Rightarrow> options \<Rightarrow> step" where
  "launch_browser cfg env opts =
     steps [
       yield LaunchingBrowser,
       await (Launch (effective_headless cfg opts)) (launch env),
       assign (\<lambda>s. s\<lparr>browser := Some Launched\<rparr>)]"

definition new_context_page :: "env \<Rightarrow> options \<Rightarrow> step" where
  "new_context_page env opts =
     steps [
       await_value SetupVideoRecording (setupVideoRecording env)
         (\<lambda>vp. assign (\<lambda>s. s\<lparr>videoPath := vp\<rparr>)),
       (if truthy_string (video opts)
        then read videoPath (\<lambda>vp. console_log (LogVideoPath vp))
        else skip),
       read videoPath (\<lambda>vp. await (NewContext (recordVideo opts vp)) (newContext env)),
       assign (\<lambda>s. s\<lparr>ctx := Some (Context [])\<rparr>),
       await_value NewPage (newPage env) (\<lambda>p. assign (\<lambda>s. s\<lparr>page := Some p\<rparr>))]"

definition launch_viewport :: "config \<Rightarrow> env \<Rightarrow> options \<Rightarrow> step" where
  "launch_viewport cfg env opts =
     (if truthy_string (viewport opts) then
        (case viewport opts of
           None \<Rightarrow> skip
         | Some v \<Rightarrow>
             (case viewport_size env v of
                Some (w, h) \<Rightarrow> on_page (\<lambda>_. await (SetViewportSize w h) (setViewportSize env))
              | None \<Rightarrow> yield (InvalidViewport v)))
      else if truthy_string (browser_defaultViewport cfg) then
        (case browser_defaultViewport cfg of
           None \<Rightarrow> skip
         | Some v \<Rightarrow>
             (case viewport_size env v of
                Some (w, h) \<Rightarrow> on_page (\<lambda>_. await (SetViewportSize w h) (setViewportSize env))
              | None \<Rightarrow> skip))
      else skip)"

definition acquire_launch :: "config \<Rightarrow> env \<Rightarrow> options \<Rightarrow> step" where
  "acquire_launch cfg env opts =
     steps [
       launch_browser cfg env opts,
       new_context_page env opts,
       launch_viewport cfg env opts]"

definition acquire :: "config \<Rightarrow> env \<Rightarrow> options \<Rightarrow> step" where
  "acquire cfg env opts =
     (if connect_mode opts then
        (case connectTo opts of None \<Rightarrow> skip | Some port \<Rightarrow> acquire_connect env opts port)
      else acquire_launch cfg env opts)"

definition attach_collectors :: "env \<Rightarrow> string \<Rightarrow> options \<Rightarrow> step" where
  "attach_collectors env u opts =
     steps [
       (if u = ''current'' \<and> connect_mode opts then console_log LogMonitoringWarning else skip),
       await_value SetupConsoleLogging (setupConsoleLogging env)
         (\<lambda>ms. assign (\<lambda>s. s\<lparr>consoleMessages := ms\<rparr>)),
       await_value SetupNetworkMonitoring (setupNetworkMonitoring env)
         (\<lambda>ms. assign (\<lambda>s. s\<lparr>networkMessages := ms\<rparr>))]"

definition navigate :: "config \<Rightarrow> env \<Rightarrow> string \<Rightarrow> options \<Rightarrow> step" where
  "navigate cfg env u opts =
     (if u = ''current'' \<and> connect_mode opts then
        on_page (\<lambda>p. yield (UsingCurrentPage (page_url p)))
      else if u = ''reload-current'' \<and> connect_mode opts then
        on_page (\<lambda>p.
          steps [
            yield (ReloadingCurrentPage (page_url p)),
            await (Reload (effective_timeout cfg opts)) (reload env)])
      else
        steps [
          yield (NavigatingTo u),
          on_page (\<lambda>_. await (Goto u (effective_timeout cfg opts)) (goto env)),
          yield PageLoadedWaiting,
          try_catch
            (on_page (\<lambda>_. await (WaitForLoadState (effective_timeout cfg opts)) (waitForLoadState env)))
            (\<lambda>error. yield NetworkIdleTimedOut)])"

text \<open>
  \<open>await new Promise((resolve) => setTimeout(resolve, ms))\<close>: the timer is scheduled and
  the generator resumes when it has fired. The handle \<open>setTimeout\<close> returns is dropped:
  nothing is pushed to \<open>timeouts\<close>.
\<close>

definition timed_wait :: "number \<Rightarrow> step" where
  "timed_wait ms = steps [await (SetTimeout ms) None, emit (TimerFired (Timer ms))]"

definition handle_wait :: "config \<Rightarrow> env \<Rightarrow> options \<Rightarrow> step" where
  "handle_wait cfg env opts =
     (case wait opts of
        None \<Rightarrow> skip
      | Some w \<Rightarrow>
          if w = [] then skip
          else
            try_catch
              (case parseWaitParameter w of
                 Inl e \<Rightarrow> throw e
               | Inr waitConfig \<Rightarrow>
                   steps [
                     console_log (LogWaiting waitConfig),
                     (case waitConfig of
                        WaitTime ms \<Rightarrow> timed_wait ms
                      | WaitSelector sel \<Rightarrow>
                          on_page (\<lambda>_.
                            await (WaitForSelector sel (effective_timeout cfg opts))
                              (waitForSelector env)))])
              (\<lambda>error. yield (WaitError (error_message error))))"

text \<open>\<open>for (const timeout of timeouts) clearTimeout(timeout); timeouts.length = 0\<close>\<close>

definition clear_timeouts :: step where
  "clear_timeouts s =
     (None, s\<lparr>events := events s @ map (\<lambda>t. Call (ClearTimeout t)) (timeouts s),
              timeouts := []\<rparr>)"

definition output_diagnostics :: "env \<Rightarrow> options \<Rightarrow> step" where
  "output_diagnostics env opts =
     read (\<lambda>s. outputMessages env (consoleMessages s) (networkMessages s) opts)
       (\<lambda>(ms, r). steps [
          emit (Call OutputMessages),
          steps (map (\<lambda>m. yield (Diagnostic m)) ms),
          (case r of None \<Rightarrow> skip | Some e \<Rightarrow> throw e)])"

definition output_html :: "env \<Rightarrow> options \<Rightarrow> step" where
  "output_html env opts =
     (if html opts = Some True then
        on_page (\<lambda>_.
          await_value PageContent (content env)
            (\<lambda>htmlContent. steps [yield HtmlBegin, yield (HtmlContent htmlContent), yield HtmlEnd]))
      else skip)"

definition take_screenshot :: "env \<Rightarrow> options \<Rightarrow> step" where
  "take_screenshot env opts =
     steps [
       await CaptureScreenshot (captureScreenshot env),
       (case screenshot opts of
          None \<Rightarrow> skip
        | Some path \<Rightarrow> if path = [] then skip else yield (ScreenshotSaved path))]"

text \<open>What follows navigation and waiting: diagnostics, markup, screenshot.\<close>

definition report_and_capture :: "env \<Rightarrow> options \<Rightarrow> step" where
  "report_and_capture env opts =
     steps [
       clear_timeouts,
       output_diagnostics env opts,
       output_html env opts,
       take_screenshot env opts]"

text \<open>The body of the inner \<open>try\<close>.\<close>

definition body :: "config \<Rightarrow> env \<Rightarrow> string \<Rightarrow> options \<Rightarrow> step" where
  "body cfg env u opts =
     steps [
       acquire cfg env opts,
       attach_collectors env u opts,
       navigate cfg env u opts,
       handle_wait cfg env opts,
       report_and_capture env opts]"

text \<open>The inner \<open>catch\<close>.\<close>

definition report_error :: "thrown \<Rightarrow> step" where
  "report_error error =
     steps [clear_timeouts, yield (BrowserCommandError (error_message error))]"

text \<open>The \<open>finally\<close> block.\<close>

definition stop_video :: "env \<Rightarrow> step" where
  "stop_video env =
     read (\<lambda>s. (videoPath s, page s)) (\<lambda>(vp, p).
       case (vp, p) of
         (Some path, Some pg) \<Rightarrow>
           if path = [] then skip
           else
             await_value (StopVideoRecording pg path) (stopVideoRecording env)
               (\<lambda>videoMessage.
                  case videoMessage of
                    None \<Rightarrow> skip
                  | Some m \<Rightarrow> if m = [] then skip else yield (VideoMessage m))
       | _ \<Rightarrow> skip)"

definition close_browser :: "env \<Rightarrow> options \<Rightarrow> step" where
  "close_browser env opts =
     read browser (\<lambda>b.
       if b \<noteq> None \<and> \<not> connect_mode opts then
         (case b of
            Some handle \<Rightarrow> steps [await (BrowserClose handle) (close env), yield BrowserClosed]
          | None \<Rightarrow> skip)
       else if connect_mode opts then
         (case b of
            Some handle \<Rightarrow> await (BrowserClose handle) (close env)
          | None \<Rightarrow> skip)
       else skip)"

definition cleanup :: "env \<Rightarrow> options \<Rightarrow> step" where
  "cleanup env opts = steps [clear_timeouts, stop_video env, close_browser env opts]"

text \<open>
  The part of \<open>execute\<close> after the availability checks: the request's address is taken
  from \<open>query\<close> when the options carry none, the usage text ends the run when there is
  still none, the option conflict is thrown to the outer \<open>catch\<close>, and the remaining work
  runs under the inner \<open>try\<close>/\<open>catch\<close>/\<open>finally\<close>.
\<close>

definition resolve_url :: "string \<Rightarrow> options \<Rightarrow> options" where
  "resolve_url query opts =
     (if \<not> truthy_string (url opts) \<and> query \<noteq> [] then opts\<lparr>url := Some query\<rparr> else opts)"

definition open_page :: "config \<Rightarrow> env \<Rightarrow> options \<Rightarrow> step" where
  "open_page cfg env opts =
     (case url opts of
        None \<Rightarrow> yield Usage
      | Some u \<Rightarrow>
          if u = [] then yield Usage
          else
            steps [
              (if connect_mode opts \<and> truthy_string (video opts)
               then throw (Error video_conflict_message) else skip),
              try_finally
                (try_catch (body cfg env u (with_defaults opts)) report_error)
                (cleanup env (with_defaults opts))])"

definition execute :: "config \<Rightarrow> env \<Rightarrow> string \<Rightarrow> options \<Rightarrow> step" where
  "execute cfg env query opts =
     try_catch
       (steps [
          await EnsurePlaywright (ensurePlaywright env),
          await EnsurePlaywrightBrowsers (ensurePlaywrightBrowsers env),
          open_page cfg env (resolve_url query opts)])
       (\<lambda>error. yield (PlaywrightCheckError (error_message error)))"

text \<open>A whole run, its trace, the progress sequence it emits and the calls it makes.\<close>

definition run :: "config \<Rightarrow> env \<Rightarrow> string \<Rightarrow> options \<Rightarrow> thrown option \<times> state" where
  "run cfg env query opts = execute cfg env query opts initial_state"

definition trace :: "config \<Rightarrow> env \<Rightarrow> string \<Rightarrow> options \<Rightarrow> event list" where
  "trace cfg env query opts = events (snd (run cfg env query opts))"

fun yielded :: "event list \<Rightarrow> message list" where
  "yielded [] = []"
| "yielded (Yield m # es) = m # yielded es"
| "yielded (_ # es) = yielded es"

fun called :: "event list \<Rightarrow> call list" where
  "called [] = []"
| "called (Call c # es) = c # called es"
| "called (_ # es) = called es"

section \<open>Reasoning about steps\<close>

text \<open>
  \<open>preserves P f\<close>: whatever \<open>f\<close> does, and whether or not it throws, a state satisfying
  \<open>P\<close> is taken to one satisfying \<open>P\<close>. \<open>never_throws f\<close>: \<open>f\<close> always completes.
  \<open>extends f\<close>: \<open>f\<close> only adds to the trace.
\<close>

definition preserves :: "(state \<Rightarrow> bool) \<Rightarrow> step \<Rightarrow> bool" where
  "preserves P f = (\<forall>s. P s \<longrightarrow> P (snd (f s)))"

definition never_throws :: "step \<Rightarrow> bool" where
  "never_throws f = (\<forall>s. fst (f s) = None)"

definition extends :: "step \<Rightarrow> bool" where
  "extends f = (\<forall>s. \<exists>es. events (snd (f s)) = events s @ es)"

section \<open>A sample request and sample collaborators\<close>

text \<open>
  A request with no option set, a configuration with no browser section, and
  collaborators that all succeed: no recording, no diagnostics, no remote context. Its
  \<open>isNaN_Number\<close> takes strings of digits for numbers and nothing else, which is
  narrower than \<open>Number\<close>.
\<close>

definition no_options :: options where
  "no_options =
     \<lparr>url = None, connectTo = None, video = None, html = None, network = None,
      console = None, viewport = None, headless = None, timeout = None, wait = None,
      screenshot = None\<rparr>"

definition no_config :: config where
  "no_config = \<lparr>browser_headless = None, browser_defaultViewport = None, browser_timeout = None\<rparr>"

definition blank_page :: page where
  "blank_page = Page 0 ''about:blank''"

definition quiet_env :: env where
  "quiet_env =
     \<lparr>ensurePlaywright = None, ensurePlaywrightBrowsers = None, connectOverCDP = None,
      contexts = [], newContext = None, newPage = Inr blank_page, setViewportSize = None,
      isNaN_Number = (\<lambda>s. \<not> list_all is_digit s), launch = None,
      setupVideoRecording = Inr None, setupConsoleLogging = Inr [],
      setupNetworkMonitoring = Inr [], reload = None, goto = None, waitForLoadState = None,
      waitForSelector = None, outputMessages = (\<lambda>c n opts. (c @ n, None)),
      content = Inr ''<html></html>'', captureScreenshot = None,
      stopVideoRecording = Inr None, close = None\<rparr>"

text \<open>The state once both availability checks have passed.\<close>

definition checked_state :: state where
  "checked_state = initial_state\<lparr>events := [Call EnsurePlaywright, Call EnsurePlaywrightBrowsers]\<rparr>"

text \<open>The events of the diagnostics and capture steps when their collaborators return
  (\<open>c\<close> is the page markup).\<close>

definition capture_events :: "env \<Rightarrow> options \<Rightarrow> state \<Rightarrow> string \<Rightarrow> event list" where
  "capture_events env opts s c =
     Call OutputMessages #
     map (\<lambda>m. Yield (Diagnostic m))
       (fst (outputMessages env (consoleMessages s) (networkMessages s) opts)) @
     (if html opts = Some True
      then [Call PageContent, Yield HtmlBegin, Yield (HtmlContent c), Yield HtmlEnd] else []) @
     Call CaptureScreenshot #
     (case screenshot opts of
        None \<Rightarrow> []
      | Some p \<Rightarrow> if p = [] then [] else [Yield (ScreenshotSaved p)])"

text \<open>The calls that navigate the page.\<close>

fun navigation_call :: "call \<Rightarrow> bool" where
  "navigation_call (Goto u t) = True"
| "navigation_call (Reload t) = True"
| "navigation_call (WaitForLoadState t) = True"
| "navigation_call _ = False"

text \<open>
  What a connect-mode run on the current page may leave in its trace: no navigation, no
  \<open>Browser closed.\<close> item, and no close other than that of the connection to \<open>port\<close>.
\<close>

fun allowed_on_current :: "nat \<Rightarrow> event \<Rightarrow> bool" where
  "allowed_on_current port (Yield m) = (m \<noteq> BrowserClosed)"
| "allowed_on_current port (Call (BrowserClose h)) = (h = Connected port)"
| "allowed_on_current port (Call c) = (\<not> navigation_call c)"
| "allowed_on_current port _ = True"

text \<open>
  The events of the wait step on a state that has a page: nothing without a directive,
  the error report for a malformed one, the timer scheduled and fired for a time
  directive, the selector wait and the report of its failure for a selector directive.
\<close>

definition wait_events :: "config \<Rightarrow> env \<Rightarrow> options \<Rightarrow> event list" where
  "wait_events cfg env opts =
     (case wait opts of
        None \<Rightarrow> []
      | Some w \<Rightarrow>
          if w = [] then []
          else
            (case parseWaitParameter w of
               Inl e \<Rightarrow> [Yield (WaitError (error_message e))]
             | Inr (WaitTime ms) \<Rightarrow>
                 [Log (LogWaiting (WaitTime ms)), Call (SetTimeout ms), TimerFired (Timer ms)]
             | Inr (WaitSelector sel) \<Rightarrow>
                 [Log (LogWaiting (WaitSelector sel)),
                  Call (WaitForSelector sel (effective_timeout cfg opts))] @
                 (case waitForSelector env of
                    None \<Rightarrow> []
                  | Some e \<Rightarrow> [Yield (WaitError (error_message e))])))"

text \<open>
  The events of the \<open>finally\<close> block, after its clearing loop, when the finalization and
  close calls return: the recording is finalized if there is one, then the browser or the
  connection is closed.
\<close>

definition finalize_events :: "env \<Rightarrow> options \<Rightarrow> state \<Rightarrow> event list" where
  "finalize_events env opts s =
     (case (videoPath s, page s) of
        (Some path, Some pg) \<Rightarrow>
          if path = [] then []
          else
            Call (StopVideoRecording pg path) #
            (case stopVideoRecording env of
               Inr (Some m) \<Rightarrow> if m = [] then [] else [Yield (VideoMessage m)]
             | _ \<Rightarrow> [])
      | _ \<Rightarrow> []) @
     (case browser s of
        None \<Rightarrow> []
      | Some handle \<Rightarrow>
          if connect_mode opts then [Call (BrowserClose handle)]
          else [Call (BrowserClose handle), Yield BrowserClosed])"

text \<open>
  The state of a launch-mode run with the sample collaborators once the browser, its
  page and the collectors are in place.
\<close>

definition launched_state :: state where
  "launched_state =
     \<lparr>events =
        [Call EnsurePlaywright, Call EnsurePlaywrightBrowsers, Yield LaunchingBrowser,
         Call (Launch True), Call SetupVideoRecording, Call (NewContext None), Call NewPage,
         Call SetupConsoleLogging, Call SetupNetworkMonitoring],
      timeouts = [], browser = Some Launched, ctx = Some (Context []), page = Some blank_page,
      consoleMessages = [], networkMessages = [], videoPath = None\<rparr>"

section \<open>Rules for the control flow\<close>


lemma preserves_skip: "preserves P skip"
  by (simp add: preserves_def skip_def)

lemma preserves_throw: "preserves P (throw e)"
  by (simp add: preserves_def throw_def)

lemma preserves_emit:
  "(\<And>s. P s \<Longrightarrow> P (s\<lparr>events := events s @ [ev]\<rparr>)) \<Longrightarrow> preserves P (emit ev)"
  by (simp add: preserves_def emit_def)

lemma preserves_yield:
  "(\<And>s. P s \<Longrightarrow> P (s\<lparr>events := events s @ [Yield m]\<rparr>)) \<Longrightarrow> preserves P (yield m)"
  by (simp add: yield_def preserves_emit)

lemma preserves_console_log:
  "(\<And>s. P s \<Longrightarrow> P (s\<lparr>events := events s @ [Log l]\<rparr>)) \<Longrightarrow> preserves P (console_log l)"
  by (simp add: console_log_def preserves_emit)

lemma preserves_assign: "(\<And>s. P s \<Longrightarrow> P (f s)) \<Longrightarrow> preserves P (assign f)"
  by (simp add: preserves_def assign_def)

lemma preserves_read: "(\<And>x. preserves P (k x)) \<Longrightarrow> preserves P (read g k)"
  by (simp add: preserves_def read_def)

lemma preserves_await:
  "(\<And>s. P s \<Longrightarrow> P (s\<lparr>events := events s @ [Call c]\<rparr>)) \<Longrightarrow> preserves P (await c r)"
  by (simp add: preserves_def await_def)

lemma preserves_await_value:
  "(\<And>s. P s \<Longrightarrow> P (s\<lparr>events := events s @ [Call c]\<rparr>)) \<Longrightarrow> (\<And>v. preserves P (k v)) \<Longrightarrow>
   preserves P (await_value c r k)"
  by (cases r) (simp_all add: preserves_def await_value_def)

lemma preserves_steps_Nil: "preserves P (steps [])"
  by (simp add: preserves_def)

lemma preserves_steps_Cons:
  "preserves P f \<Longrightarrow> preserves P (steps fs) \<Longrightarrow> preserves P (steps (f # fs))"
proof -
  assume f: "preserves P f" and g: "preserves P (steps fs)"
  show ?thesis
    unfolding preserves_def
  proof (intro allI impI)
    fix s assume "P s"
    then have 1: "P (snd (f s))" using f by (simp add: preserves_def)
    then have 2: "P (snd (steps fs (snd (f s))))" using g by (simp add: preserves_def)
    show "P (snd (steps (f # fs) s))"
      using 1 2 by (cases "f s") (auto split: option.splits)
  qed
qed

lemma preserves_steps_map:
  "(\<And>x. preserves P (g x)) \<Longrightarrow> preserves P (steps (map g xs))"
  by (induction xs) (simp_all add: preserves_steps_Nil preserves_steps_Cons)

lemma preserves_try_catch:
  "preserves P f \<Longrightarrow> (\<And>e. preserves P (h e)) \<Longrightarrow> preserves P (try_catch f h)"
proof -
  assume f: "preserves P f" and h: "\<And>e. preserves P (h e)"
  show ?thesis
    unfolding preserves_def
  proof (intro allI impI)
    fix s assume "P s"
    then have 1: "P (snd (f s))" using f by (simp add: preserves_def)
    then have 2: "\<And>e. P (snd (h e (snd (f s))))" using h by (simp add: preserves_def)
    show "P (snd (try_catch f h s))"
      using 1 2 by (cases "f s") (auto simp: try_catch_def split: option.splits)
  qed
qed

lemma preserves_try_finally:
  "preserves P f \<Longrightarrow> preserves P g \<Longrightarrow> preserves P (try_finally f g)"
proof -
  assume f: "preserves P f" and g: "preserves P g"
  show ?thesis
    unfolding preserves_def
  proof (intro allI impI)
    fix s assume "P s"
    then have 1: "P (snd (f s))" using f by (simp add: preserves_def)
    then have 2: "P (snd (g (snd (f s))))" using g by (simp add: preserves_def)
    show "P (snd (try_finally f g s))"
      using 1 2 by (cases "f s"; cases "g (snd (f s))") (auto simp: try_finally_def split: option.splits)
  qed
qed

lemma preserves_if:
  "(c \<Longrightarrow> preserves P a) \<Longrightarrow> (\<not> c \<Longrightarrow> preserves P b) \<Longrightarrow> preserves P (if c then a else b)"
  by simp

lemma preserves_case_option:
  "(x = None \<Longrightarrow> preserves P a) \<Longrightarrow> (\<And>v. x = Some v \<Longrightarrow> preserves P (b v)) \<Longrightarrow>
   preserves P (case x of None \<Rightarrow> a | Some v \<Rightarrow> b v)"
  by (cases x) simp_all

lemma preserves_case_list:
  "(x = [] \<Longrightarrow> preserves P a) \<Longrightarrow> (\<And>y ys. x = y # ys \<Longrightarrow> preserves P (b y ys)) \<Longrightarrow>
   preserves P (case x of [] \<Rightarrow> a | y # ys \<Rightarrow> b y ys)"
  by (cases x) simp_all

lemma preserves_case_sum:
  "(\<And>v. x = Inl v \<Longrightarrow> preserves P (a v)) \<Longrightarrow> (\<And>v. x = Inr v \<Longrightarrow> preserves P (b v)) \<Longrightarrow>
   preserves P (case x of Inl v \<Rightarrow> a v | Inr v \<Rightarrow> b v)"
  by (cases x) simp_all

lemma preserves_case_prod:
  "(\<And>a b. x = (a, b) \<Longrightarrow> preserves P (f a b)) \<Longrightarrow> preserves P (case x of (a, b) \<Rightarrow> f a b)"
  by (cases x) simp_all

lemma preserves_case_wait_config:
  "(\<And>v. x = WaitTime v \<Longrightarrow> preserves P (a v)) \<Longrightarrow>
   (\<And>v. x = WaitSelector v \<Longrightarrow> preserves P (b v)) \<Longrightarrow>
   preserves P (case x of WaitTime v \<Rightarrow> a v | WaitSelector v \<Rightarrow> b v)"
  by (cases x) simp_all

lemma preserves_on_page: "(\<And>p. preserves P (k p)) \<Longrightarrow> preserves P (on_page k)"
  unfolding on_page_def
  by (intro preserves_read preserves_case_option preserves_throw) simp

lemma preserves_clear_timeouts:
  "(\<And>s. P s \<Longrightarrow>
      P (s\<lparr>events := events s @ map (\<lambda>t. Call (ClearTimeout t)) (timeouts s), timeouts := []\<rparr>)) \<Longrightarrow>
   preserves P clear_timeouts"
  by (simp add: preserves_def clear_timeouts_def)

lemmas preserves_intros =
  preserves_skip preserves_throw preserves_emit preserves_yield preserves_console_log
  preserves_assign preserves_read preserves_await preserves_await_value preserves_steps_Nil
  preserves_steps_Cons preserves_steps_map preserves_try_catch preserves_try_finally
  preserves_on_page preserves_clear_timeouts preserves_if preserves_case_option
  preserves_case_list preserves_case_sum preserves_case_prod preserves_case_wait_config

lemma preservesD: "preserves P f \<Longrightarrow> P s \<Longrightarrow> P (snd (f s))"
  by (simp add: preserves_def)

lemma preserves_single: "preserves P f \<Longrightarrow> preserves P (steps [f])"
  by (intro preserves_steps_Cons preserves_steps_Nil)

lemma post_steps_Cons:
  "f s = (None, s') \<Longrightarrow> steps (f # fs) s = steps fs s'"
  by simp

text \<open>The definitions a concrete run is evaluated with.\<close>

lemmas run_eval =
  run_def trace_def execute_def open_page_def resolve_url_def with_defaults_def body_def
  acquire_def acquire_connect_def acquire_launch_def connect_browser_def attach_context_def
  choose_page_def connect_viewport_def launch_browser_def new_context_page_def
  launch_viewport_def attach_collectors_def navigate_def handle_wait_def timed_wait_def
  clear_timeouts_def output_diagnostics_def output_html_def take_screenshot_def
  report_and_capture_def report_error_def stop_video_def close_browser_def cleanup_def
  try_catch_def try_finally_def yield_def emit_def console_log_def assign_def read_def
  await_def await_value_def skip_def throw_def on_page_def connect_mode_def
  truthy_string_def truthy_number_def effective_timeout_def effective_headless_def
  recordVideo_def initial_state_def no_options_def no_config_def quiet_env_def blank_page_def

section \<open>The parsers\<close>

lemma bit_length_bounds: "2 ^ k \<le> n \<Longrightarrow> n < 2 ^ Suc k \<Longrightarrow> bit_length n = Suc k"
proof (induction k arbitrary: n)
  case 0
  then have "n = 1" by simp
  then show ?case by (simp add: bit_length.simps)
next
  case (Suc k)
  have "2 ^ k \<le> n div 2" using Suc.prems by simp
  moreover have "n div 2 < 2 ^ Suc k" using Suc.prems by simp
  ultimately have "bit_length (n div 2) = Suc k" by (rule Suc.IH)
  moreover have "n \<noteq> 0" using Suc.prems by auto
  ultimately show ?case by (subst bit_length.simps) simp
qed

lemma bit_length_le: "n < 2 ^ k \<Longrightarrow> bit_length n \<le> k"
proof (induction k arbitrary: n)
  case 0
  then show ?case by (simp add: bit_length.simps)
next
  case (Suc k)
  have "n div 2 < 2 ^ k" using Suc.prems by simp
  then have "bit_length (n div 2) \<le> k" by (rule Suc.IH)
  then show ?case by (subst bit_length.simps) simp
qed

lemma to_number_exact: "n \<le> MAX_SAFE_INTEGER \<Longrightarrow> to_number n = Finite n"
proof -
  assume "n \<le> MAX_SAFE_INTEGER"
  then have "n < 2 ^ 53" by (simp add: MAX_SAFE_INTEGER_def)
  then have "bit_length n \<le> 53" by (rule bit_length_le)
  then show ?thesis by (simp add: to_number_def)
qed

lemma to_number_unsafe: "to_number 9007199254740993 = Finite 9007199254740992"
proof -
  have "bit_length 9007199254740993 = Suc 53"
    by (rule bit_length_bounds) simp_all
  then show ?thesis by (simp add: to_number_def Let_def)
qed

lemma is_digit_digit_char: "d < 10 \<Longrightarrow> is_digit (digit_char d)"
  by (simp add: is_digit_def digit_char_def)

lemma digit_value_digit_char: "d < 10 \<Longrightarrow> digit_value (digit_char d) = d"
  by (simp add: digit_value_def digit_char_def)

lemma decimal_digits: "list_all is_digit (decimal n)"
proof (induction n rule: decimal.induct)
  case (1 n)
  show ?case
  proof (cases "n < 10")
    case True
    then show ?thesis by (subst decimal.simps) (simp add: is_digit_digit_char)
  next
    case False
    then show ?thesis using 1 by (subst decimal.simps) (simp add: is_digit_digit_char)
  qed
qed

lemma decimal_nonempty: "decimal n \<noteq> []"
  by (subst decimal.simps) simp

lemma digits_value_snoc: "digits_value (ds @ [c]) = 10 * digits_value ds + digit_value c"
  by (simp add: digits_value_def)

lemma digits_value_decimal: "digits_value (decimal n) = n"
proof (induction n rule: decimal.induct)
  case (1 n)
  show ?case
  proof (cases "n < 10")
    case True
    then show ?thesis
      by (subst decimal.simps) (simp add: digits_value_def digit_value_digit_char)
  next
    case False
    then have "digits_value (decimal (n div 10)) = n div 10" using 1 by simp
    then show ?thesis using False
      by (subst decimal.simps) (simp add: digits_value_snoc digit_value_digit_char)
  qed
qed

lemma match_digits_unit:
  assumes "ds \<noteq> []" "list_all is_digit ds" "u = ''ms'' \<or> u = ''s'' \<or> u = ''m''"
  shows "match_timeRegex (ds @ u) = Some (ds, u)"
proof -
  have nd: "u \<noteq> [] \<and> \<not> is_digit (hd u)" using assms(3) by (auto simp: is_digit_def)
  have "takeWhile is_digit (ds @ u) = ds"
    using assms(2) nd by (cases u) (auto simp: list_all_iff takeWhile_append2 intro!: takeWhile_eq_Nil_iff[THEN iffD2])
  moreover have "dropWhile is_digit (ds @ u) = u"
    using assms(2) nd by (cases u) (auto simp: list_all_iff dropWhile_append2)
  ultimately show ?thesis using assms by (simp add: match_timeRegex_def)
qed

lemma match_shape:
  "match_timeRegex s = Some (ds, u) \<Longrightarrow>
     s = ds @ u \<and> ds \<noteq> [] \<and> list_all is_digit ds \<and> (u = ''ms'' \<or> u = ''s'' \<or> u = ''m'')"
proof -
  assume m: "match_timeRegex s = Some (ds, u)"
  then have e: "ds = takeWhile is_digit s" "u = dropWhile is_digit s"
    and p: "ds \<noteq> []" "u = ''ms'' \<or> u = ''s'' \<or> u = ''m''"
    by (auto simp: match_timeRegex_def Let_def split: if_splits)
  have "s = ds @ u" unfolding e by simp
  moreover have "list_all is_digit ds"
    unfolding e by (auto simp: list_all_iff dest: set_takeWhileD)
  ultimately show ?thesis using p by blast
qed

lemma parseTimeDuration_digits:
  assumes "ds \<noteq> []" "list_all is_digit ds"
  shows "parseTimeDuration (ds @ ''ms'') = Some (parseInt10 ds)"
    and "parseTimeDuration (ds @ ''s'') = Some (num_times (parseInt10 ds) 1000)"
    and "parseTimeDuration (ds @ ''m'') = Some (num_times (num_times (parseInt10 ds) 60) 1000)"
  using assms by (simp_all add: parseTimeDuration_def match_digits_unit)

lemma parseTimeDuration_None_iff:
  "parseTimeDuration s = None \<longleftrightarrow>
     \<not> (\<exists>ds u. s = ds @ u \<and> ds \<noteq> [] \<and> list_all is_digit ds \<and> (u = ''ms'' \<or> u = ''s'' \<or> u = ''m''))"
proof
  assume n: "parseTimeDuration s = None"
  show "\<not> (\<exists>ds u. s = ds @ u \<and> ds \<noteq> [] \<and> list_all is_digit ds \<and> (u = ''ms'' \<or> u = ''s'' \<or> u = ''m''))"
  proof
    assume "\<exists>ds u. s = ds @ u \<and> ds \<noteq> [] \<and> list_all is_digit ds \<and> (u = ''ms'' \<or> u = ''s'' \<or> u = ''m'')"
    then obtain ds u where "s = ds @ u" "ds \<noteq> []" "list_all is_digit ds" "u = ''ms'' \<or> u = ''s'' \<or> u = ''m''"
      by blast
    then have "match_timeRegex s = Some (ds, u)" by (simp add: match_digits_unit)
    then show False using n \<open>u = ''ms'' \<or> u = ''s'' \<or> u = ''m''\<close>
      by (auto simp: parseTimeDuration_def Let_def)
  qed
next
  assume "\<not> (\<exists>ds u. s = ds @ u \<and> ds \<noteq> [] \<and> list_all is_digit ds \<and> (u = ''ms'' \<or> u = ''s'' \<or> u = ''m''))"
  then have "match_timeRegex s = None"
    using match_shape[of s] by (cases "match_timeRegex s") auto
  then show "parseTimeDuration s = None" by (simp add: parseTimeDuration_def)
qed


lemma digits_value_unsafe: "digits_value ''9007199254740993'' = 9007199254740993"
  by (simp add: digits_value_def digit_value_def)

lemma parseTimeDuration_decimal:
  "parseTimeDuration (decimal n @ ''ms'') = Some (to_number n)"
  "parseTimeDuration (decimal n @ ''s'') = Some (num_times (to_number n) 1000)"
  "parseTimeDuration (decimal n @ ''m'') = Some (num_times (num_times (to_number n) 60) 1000)"
  by (simp_all add: parseTimeDuration_digits decimal_nonempty decimal_digits parseInt10_def
      digits_value_decimal)

text \<open>
  C9, as amended. For every natural number \<open>n\<close> the duration parser maps \<open>"<n>ms"\<close> to
  \<open>n\<close> when \<open>n\<close> is at most \<open>2^53 - 1\<close>, \<open>"<n>s"\<close> to \<open>n * 1000\<close> and \<open>"<n>m"\<close> to
  \<open>n * 60000\<close> when these products are at most \<open>2^53 - 1\<close>; on any digits (leading zeros
  included) the result is the value rounded to a double, and rounded again at each
  multiplication by the unit's factor.
  It returns \<open>null\<close> exactly on the strings that are not a non-empty run of digits
  followed by \<open>ms\<close>, \<open>s\<close> or \<open>m\<close>; being a function of its argument, it has no effect.
\<close>

theorem parseTimeDuration_safe_range:
  "(n \<le> MAX_SAFE_INTEGER \<longrightarrow> parseTimeDuration (decimal n @ ''ms'') = Some (Finite n)) \<and>
   (n * 1000 \<le> MAX_SAFE_INTEGER \<longrightarrow>
      parseTimeDuration (decimal n @ ''s'') = Some (Finite (n * 1000))) \<and>
   (n * 60000 \<le> MAX_SAFE_INTEGER \<longrightarrow>
      parseTimeDuration (decimal n @ ''m'') = Some (Finite (n * 60000))) \<and>
   (ds \<noteq> [] \<and> list_all is_digit ds \<longrightarrow>
      parseTimeDuration (ds @ ''ms'') = Some (to_number (digits_value ds)) \<and>
      parseTimeDuration (ds @ ''s'') = Some (num_times (to_number (digits_value ds)) 1000) \<and>
      parseTimeDuration (ds @ ''m'') =
        Some (num_times (num_times (to_number (digits_value ds)) 60) 1000)) \<and>
   ((parseTimeDuration s = None) =
    (\<not> (\<exists>v u. s = v @ u \<and> v \<noteq> [] \<and> list_all is_digit v \<and>
              (u = ''ms'' \<or> u = ''s'' \<or> u = ''m''))))"
proof (intro conjI impI)
  assume "n \<le> MAX_SAFE_INTEGER"
  then show "parseTimeDuration (decimal n @ ''ms'') = Some (Finite n)"
    by (simp add: parseTimeDuration_decimal to_number_exact)
next
  assume b: "n * 1000 \<le> MAX_SAFE_INTEGER"
  then have "n \<le> MAX_SAFE_INTEGER" by simp
  then show "parseTimeDuration (decimal n @ ''s'') = Some (Finite (n * 1000))"
    using b by (simp add: parseTimeDuration_decimal to_number_exact)
next
  assume b: "n * 60000 \<le> MAX_SAFE_INTEGER"
  then have "n \<le> MAX_SAFE_INTEGER" and "n * 60 \<le> MAX_SAFE_INTEGER" and "n * 60 * 1000 \<le> MAX_SAFE_INTEGER"
    by simp_all
  then show "parseTimeDuration (decimal n @ ''m'') = Some (Finite (n * 60000))"
    by (simp add: parseTimeDuration_decimal to_number_exact)
next
  assume "ds \<noteq> [] \<and> list_all is_digit ds"
  then show "parseTimeDuration (ds @ ''ms'') = Some (to_number (digits_value ds))"
    and "parseTimeDuration (ds @ ''s'') = Some (num_times (to_number (digits_value ds)) 1000)"
    and "parseTimeDuration (ds @ ''m'') =
        Some (num_times (num_times (to_number (digits_value ds)) 60) 1000)"
    by (simp_all add: parseTimeDuration_digits parseInt10_def)
next
  show "(parseTimeDuration s = None) =
    (\<not> (\<exists>v u. s = v @ u \<and> v \<noteq> [] \<and> list_all is_digit v \<and>
              (u = ''ms'' \<or> u = ''s'' \<or> u = ''m'')))"
    by (rule parseTimeDuration_None_iff)
qed

lemma decimal_2: "decimal 2 = ''2''"
  by (simp add: decimal.simps digit_char_def char_of_eq_iff)

lemma minus5s_shape:
  "\<not> (\<exists>v u. ''-5s'' = v @ u \<and> v \<noteq> [] \<and> list_all is_digit v \<and>
              (u = ''ms'' \<or> u = ''s'' \<or> u = ''m''))"
  by (auto simp: Cons_eq_append_conv is_digit_def)

theorem parseTimeDuration_safe_range_witness:
  "parseTimeDuration ''2ms'' = Some (Finite 2) \<and>
   parseTimeDuration ''2s'' = Some (Finite 2000) \<and>
   parseTimeDuration ''2m'' = Some (Finite 120000) \<and>
   parseTimeDuration ''007s'' = Some (Finite 7000) \<and>
   parseTimeDuration ''-5s'' = None"
proof -
  have a: "(2::nat) \<le> MAX_SAFE_INTEGER" "(2::nat) * 1000 \<le> MAX_SAFE_INTEGER"
    "(2::nat) * 60000 \<le> MAX_SAFE_INTEGER"
    by (simp_all add: MAX_SAFE_INTEGER_def)
  have d: "''007'' \<noteq> [] \<and> list_all is_digit ''007''" by (simp add: is_digit_def)
  have v: "digits_value ''007'' = 7" by (simp add: digits_value_def digit_value_def)
  have e: "to_number 7 = Finite 7" "to_number 7000 = Finite 7000"
    by (simp_all add: to_number_exact MAX_SAFE_INTEGER_def)
  show ?thesis
    using parseTimeDuration_safe_range [of 2 "''007''" "''-5s''"] a d minus5s_shape
    by (simp add: decimal_2 v e)
qed

text \<open>
  C9 as stated fails beyond the integers a double holds exactly: \<open>2^53 + 1\<close>, written
  \<open>9007199254740993\<close>, is parsed to \<open>9007199254740992\<close>.
\<close>

theorem parseTimeDuration_beyond_safe_range:
  "decimal 9007199254740993 @ ''ms'' = ''9007199254740993ms'' \<and>
   parseTimeDuration ''9007199254740993ms'' = Some (Finite 9007199254740992)"
proof -
  have "decimal 9007199254740993 = ''9007199254740993''"
    by (simp add: decimal.simps digit_char_def char_of_eq_iff)
  moreover have "parseTimeDuration (''9007199254740993'' @ ''ms'') = Some (Finite 9007199254740992)"
    by (subst parseTimeDuration_digits)
       (simp_all add: is_digit_def parseInt10_def digits_value_unsafe to_number_unsafe)
  ultimately show ?thesis by simp
qed

lemma starts_with_append: "starts_with (p @ s) p"
  by (simp add: starts_with_def)

lemma duration_no_prefix:
  assumes "parseTimeDuration w = Some d"
  shows "\<not> starts_with w ''time:'' \<and> \<not> starts_with w ''selector:'' \<and> \<not> starts_with w ''css:''"
proof -
  obtain v u where m: "match_timeRegex w = Some (v, u)"
    using assms by (cases "match_timeRegex w") (auto simp: parseTimeDuration_def)
  then have "w = v @ u" "v \<noteq> []" "list_all is_digit v" using match_shape by blast+
  then obtain c cs where "w = c # cs" "is_digit c" by (cases v) auto
  then show ?thesis by (auto simp: starts_with_def is_digit_def)
qed

text \<open>
  C4. For every wait string \<open>w\<close>: with the prefix \<open>time:\<close> the result is the time
  directive of the duration parser on the rest, or the format error that names \<open>w\<close> and
  the three accepted shapes; \<open>selector:\<close> and \<open>css:\<close> give the selector after the first
  colon, verbatim; a bare valid duration gives a time directive; every other string is
  the selector itself. Only an invalid \<open>time:\<close> string is rejected.
\<close>

theorem parseWaitParameter_priority:
  "(starts_with w ''time:'' \<longrightarrow>
      parseWaitParameter w =
        (case parseTimeDuration (drop 5 w) of
           Some d \<Rightarrow> Inr (WaitTime d)
         | None \<Rightarrow>
             Inl (Error (''Invalid time duration format: '' @ w @
                         ''. Expected format: time:Xs, time:Xms, or time:Xm'')))) \<and>
   parseWaitParameter (''selector:'' @ sel) = Inr (WaitSelector sel) \<and>
   parseWaitParameter (''css:'' @ sel) = Inr (WaitSelector sel) \<and>
   (parseTimeDuration w = Some d \<longrightarrow> parseWaitParameter w = Inr (WaitTime d)) \<and>
   (\<not> starts_with w ''time:'' \<and> \<not> starts_with w ''selector:'' \<and> \<not> starts_with w ''css:'' \<and>
    parseTimeDuration w = None \<longrightarrow> parseWaitParameter w = Inr (WaitSelector w)) \<and>
   ((\<exists>e. parseWaitParameter w = Inl e) =
    (starts_with w ''time:'' \<and> parseTimeDuration (drop 5 w) = None))"
proof (intro conjI impI)
  assume "starts_with w ''time:''"
  then show "parseWaitParameter w =
        (case parseTimeDuration (drop 5 w) of
           Some d \<Rightarrow> Inr (WaitTime d)
         | None \<Rightarrow>
             Inl (Error (''Invalid time duration format: '' @ w @
                         ''. Expected format: time:Xs, time:Xms, or time:Xm'')))"
    by (simp add: parseWaitParameter_def invalid_time_message_def split: option.splits)
next
  show "parseWaitParameter (''selector:'' @ sel) = Inr (WaitSelector sel)"
    by (simp add: parseWaitParameter_def starts_with_def after_first_colon_def)
next
  show "parseWaitParameter (''css:'' @ sel) = Inr (WaitSelector sel)"
    by (simp add: parseWaitParameter_def starts_with_def after_first_colon_def)
next
  assume "parseTimeDuration w = Some d"
  then show "parseWaitParameter w = Inr (WaitTime d)"
    using duration_no_prefix [of w d] by (simp add: parseWaitParameter_def)
next
  assume "\<not> starts_with w ''time:'' \<and> \<not> starts_with w ''selector:'' \<and> \<not> starts_with w ''css:'' \<and>
    parseTimeDuration w = None"
  then show "parseWaitParameter w = Inr (WaitSelector w)"
    by (simp add: parseWaitParameter_def)
next
  show "(\<exists>e. parseWaitParameter w = Inl e) =
    (starts_with w ''time:'' \<and> parseTimeDuration (drop 5 w) = None)"
    by (auto simp: parseWaitParameter_def split: option.splits if_splits)
qed

theorem parseWaitParameter_priority_witness:
  "parseWaitParameter ''time:2s'' = Inr (WaitTime (Finite 2000)) \<and>
   parseWaitParameter ''time:soon'' =
     Inl (Error ''Invalid time duration format: time:soon. Expected format: time:Xs, time:Xms, or time:Xm'') \<and>
   parseWaitParameter ''css:a:hover'' = Inr (WaitSelector ''a:hover'') \<and>
   parseWaitParameter ''2s'' = Inr (WaitTime (Finite 2000)) \<and>
   parseWaitParameter ''#main'' = Inr (WaitSelector ''#main'') \<and>
   parseWaitParameter ''main'' = Inr (WaitSelector ''main'')"
proof -
  have d: "parseTimeDuration ''2s'' = Some (Finite 2000)"
    using parseTimeDuration_digits(2) [of "''2''"]
    by (simp add: is_digit_def parseInt10_def digits_value_def digit_value_def to_number_exact
        MAX_SAFE_INTEGER_def)
  have n: "parseTimeDuration ''soon'' = None" "parseTimeDuration ''#main'' = None"
    "parseTimeDuration ''main'' = None"
    by (simp_all add: parseTimeDuration_def match_timeRegex_def is_digit_def)
  show ?thesis
    using parseWaitParameter_priority [of "''time:2s''" "''a:hover''" "Finite 2000"]
      parseWaitParameter_priority [of "''time:soon''" "[]" "Finite 0"]
      parseWaitParameter_priority [of "''2s''" "[]" "Finite 2000"]
      parseWaitParameter_priority [of "''#main''" "[]" "Finite 0"]
      parseWaitParameter_priority [of "''main''" "[]" "Finite 0"]
      d n
    by (simp add: starts_with_def)
qed

section \<open>Timers\<close>

lemma no_timer_acquire:
  "preserves (\<lambda>s. timeouts s = [] \<and> (\<forall>t. Call (ClearTimeout t) \<notin> set (events s)))
     (acquire cfg env opts)"
  unfolding acquire_def acquire_connect_def acquire_launch_def connect_browser_def
    attach_context_def choose_page_def connect_viewport_def launch_browser_def
    new_context_page_def launch_viewport_def Let_def
  by (intro preserves_intros) simp_all

lemma no_timer_body:
  "preserves (\<lambda>s. timeouts s = [] \<and> (\<forall>t. Call (ClearTimeout t) \<notin> set (events s)))
     (body cfg env u opts)"
  unfolding body_def attach_collectors_def navigate_def handle_wait_def timed_wait_def
    report_and_capture_def output_diagnostics_def output_html_def take_screenshot_def
  by (intro preserves_intros no_timer_acquire) simp_all

lemma no_timer_execute:
  "preserves (\<lambda>s. timeouts s = [] \<and> (\<forall>t. Call (ClearTimeout t) \<notin> set (events s)))
     (execute cfg env query opts)"
  unfolding execute_def open_page_def report_error_def cleanup_def stop_video_def close_browser_def
  by (intro preserves_intros no_timer_body) simp_all

lemma handle_wait_keeps_timeouts:
  "preserves (\<lambda>s. timeouts s = ts) (handle_wait cfg env opts)"
  unfolding handle_wait_def timed_wait_def
  by (intro preserves_intros) simp_all

lemma handle_wait_time:
  "wait opts = Some w \<Longrightarrow> w \<noteq> [] \<Longrightarrow> parseWaitParameter w = Inr (WaitTime ms) \<Longrightarrow>
   handle_wait cfg env opts s =
     (None, s\<lparr>events := events s @
        [Log (LogWaiting (WaitTime ms)), Call (SetTimeout ms), TimerFired (Timer ms)]\<rparr>)"
  by (simp add: handle_wait_def timed_wait_def try_catch_def console_log_def emit_def await_def)

text \<open>
  What the code does with timers: a timed wait schedules its timer and resumes when it
  has fired, and leaves \<open>timeouts\<close> as it was. No step adds to \<open>timeouts\<close>, so the clearing
  code cancels nothing, and \<open>timeouts\<close> is empty when a run ends.
\<close>

lemma timeouts_stay_empty:
  "timeouts (snd (run cfg env query opts)) = [] \<and>
   (\<forall>t. Call (ClearTimeout t) \<notin> set (trace cfg env query opts)) \<and>
   timeouts (snd (handle_wait cfg env opts s)) = timeouts s \<and>
   (wait opts = Some w \<and> w \<noteq> [] \<and> parseWaitParameter w = Inr (WaitTime ms) \<longrightarrow>
      handle_wait cfg env opts s =
        (None, s\<lparr>events := events s @
           [Log (LogWaiting (WaitTime ms)), Call (SetTimeout ms), TimerFired (Timer ms)]\<rparr>))"
proof -
  have "timeouts initial_state = [] \<and> (\<forall>t. Call (ClearTimeout t) \<notin> set (events initial_state))"
    by (simp add: initial_state_def)
  then have "timeouts (snd (run cfg env query opts)) = [] \<and>
    (\<forall>t. Call (ClearTimeout t) \<notin> set (events (snd (run cfg env query opts))))"
    using no_timer_execute [of cfg env query opts] unfolding preserves_def run_def by blast
  moreover have "timeouts (snd (handle_wait cfg env opts s)) = timeouts s"
    using handle_wait_keeps_timeouts [of "timeouts s" cfg env opts] by (simp add: preserves_def)
  ultimately show ?thesis by (simp add: trace_def handle_wait_time)
qed

lemma parse_time_2s: "parseWaitParameter ''time:2s'' = Inr (WaitTime (Finite 2000))"
proof -
  have "parseTimeDuration ''2s'' = Some (Finite 2000)"
    using parseTimeDuration_digits(2) [of "''2''"]
    by (simp add: is_digit_def parseInt10_def digits_value_def digit_value_def to_number_exact
        MAX_SAFE_INTEGER_def)
  then show ?thesis by (simp add: parseWaitParameter_def starts_with_def)
qed

text \<open>
  C3. The claim wants the timer of a time-directive wait registered in the pending-timer
  set, so that cleanup can cancel it. The code does not do that: at the wait \<open>time:2s\<close>
  the timer has been scheduled, and it is not in \<open>timeouts\<close>.
\<close>

theorem timed_wait_timer_not_registered:
  "Call (SetTimeout (Finite 2000)) \<in>
     set (events (snd (handle_wait no_config quiet_env (no_options\<lparr>wait := Some ''time:2s''\<rparr>)
       initial_state))) \<and>
   Timer (Finite 2000) \<notin>
     set (timeouts (snd (handle_wait no_config quiet_env (no_options\<lparr>wait := Some ''time:2s''\<rparr>)
       initial_state)))"
  using parse_time_2s
  by (simp add: handle_wait_time no_options_def initial_state_def)

section \<open>Validation\<close>

lemma connect_mode_resolve_url [simp]: "connect_mode (resolve_url query opts) = connect_mode opts"
  by (simp add: resolve_url_def connect_mode_def)

lemma video_resolve_url [simp]: "video (resolve_url query opts) = video opts"
  by (simp add: resolve_url_def)

text \<open>
  C6. A request with both a connect port and video capture makes no call beyond the two
  availability checks, whatever the collaborators do: no session is acquired, nothing is
  navigated, collected or captured, and a single item is emitted. When the checks pass
  and an address is given, that item is the option-conflict error and the run ends.
\<close>

theorem video_conflict_aborts:
  "connect_mode opts \<and> truthy_string (video opts) \<longrightarrow>
     set (called (trace cfg env query opts)) \<subseteq> {EnsurePlaywright, EnsurePlaywrightBrowsers} \<and>
     length (yielded (trace cfg env query opts)) = 1 \<and>
     (ensurePlaywright env = None \<and> ensurePlaywrightBrowsers env = None \<and>
      truthy_string (url (resolve_url query opts)) \<longrightarrow>
        run cfg env query opts =
          (None, initial_state\<lparr>events :=
             [Call EnsurePlaywright, Call EnsurePlaywrightBrowsers,
              Yield (PlaywrightCheckError video_conflict_message)]\<rparr>))"
  by (cases "ensurePlaywright env"; cases "ensurePlaywrightBrowsers env";
      cases "url (resolve_url query opts)")
     (auto simp: trace_def run_def execute_def open_page_def try_catch_def await_def yield_def
        emit_def throw_def initial_state_def truthy_string_def)

theorem video_conflict_aborts_witness:
  "run no_config quiet_env []
     (no_options\<lparr>url := Some ''current'', connectTo := Some 9222, video := Some ''/tmp/video''\<rparr>) =
     (None, initial_state\<lparr>events :=
        [Call EnsurePlaywright, Call EnsurePlaywrightBrowsers,
         Yield (PlaywrightCheckError video_conflict_message)]\<rparr>)"
  using video_conflict_aborts [of
      "no_options\<lparr>url := Some ''current'', connectTo := Some 9222, video := Some ''/tmp/video''\<rparr>"
      no_config quiet_env "[]"]
  by (simp add: connect_mode_def truthy_number_def truthy_string_def no_options_def quiet_env_def
      resolve_url_def)

section \<open>Page selection in connect mode\<close>

lemma connect_browser_ok:
  "connectOverCDP env = None \<Longrightarrow>
   connect_browser env port s =
     (None, s\<lparr>events := events s @ [Yield (Connecting port), Call (ConnectOverCDP port)],
              browser := Some (Connected port)\<rparr>)"
  by (simp add: connect_browser_def yield_def emit_def await_def assign_def)

lemma connect_viewport_page:
  "preserves (\<lambda>s. page s = p \<and> count_list (events s) (Call NewPage) = n) (connect_viewport env opts)"
  unfolding connect_viewport_def
  by (intro preserves_intros) simp_all

lemma choose_page_existing:
  "ctx s = Some (Context ps) \<Longrightarrow> ps \<noteq> [] \<Longrightarrow>
   choose_page env s =
     (None, s\<lparr>page := select_existing_page ps, events := events s @ [Yield UsingExistingPage]\<rparr>)"
  by (simp add: choose_page_def read_def assign_def yield_def emit_def)

lemma choose_page_new:
  "ctx s = Some (Context []) \<Longrightarrow> newPage env = Inr pg \<Longrightarrow>
   choose_page env s = (None, s\<lparr>events := events s @ [Call NewPage], page := Some pg\<rparr>)"
  by (simp add: choose_page_def read_def await_value_def assign_def)

lemma attach_context_existing:
  "contexts env = c # cs \<Longrightarrow> attach_context env opts s = (None, s\<lparr>ctx := Some c\<rparr>)"
  by (simp add: attach_context_def assign_def)

lemma attach_context_new:
  "contexts env = [] \<Longrightarrow> newContext env = None \<Longrightarrow>
   attach_context env opts s =
     (None, s\<lparr>events := events s @ [Call (NewContext (recordVideo opts (videoPath s)))],
              ctx := Some (Context [])\<rparr>)"
  by (simp add: attach_context_def read_def await_def assign_def)

text \<open>
  C5, as amended. In connect mode, once the connection is made: when the attached
  context has pages, the page of the session is the first one whose address does not
  start with \<open>chrome://\<close>, and the last existing page when all of them do; no page is
  created. A page is created only when the context has no page.
\<close>

theorem connect_page_selection:
  "connectOverCDP env = None \<longrightarrow>
     (contexts env = Context ps # cs \<and> ps \<noteq> [] \<longrightarrow>
        page (snd (acquire_connect env opts port s)) =
          Some (case find (\<lambda>p. \<not> starts_with (page_url p) ''chrome://'') ps of
                  Some p \<Rightarrow> p
                | None \<Rightarrow> last ps) \<and>
        count_list (events (snd (acquire_connect env opts port s))) (Call NewPage) =
          count_list (events s) (Call NewPage)) \<and>
     ((contexts env = [] \<and> newContext env = None \<or> contexts env = Context [] # cs) \<and>
      newPage env = Inr pg \<longrightarrow>
        page (snd (acquire_connect env opts port s)) = Some pg \<and>
        count_list (events (snd (acquire_connect env opts port s))) (Call NewPage) =
          Suc (count_list (events s) (Call NewPage)))"
proof (intro impI conjI)
  assume c: "connectOverCDP env = None" and h: "contexts env = Context ps # cs \<and> ps \<noteq> []"
  define s3 where "s3 = s\<lparr>events := events s @ [Yield (Connecting port), Call (ConnectOverCDP port)],
      browser := Some (Connected port), ctx := Some (Context ps),
      page := select_existing_page ps,
      events := events s @ [Yield (Connecting port), Call (ConnectOverCDP port), Yield UsingExistingPage]\<rparr>"
  have a: "acquire_connect env opts port s = steps [connect_viewport env opts] s3"
    using c h
    by (simp add: acquire_connect_def connect_browser_ok attach_context_existing
        choose_page_existing s3_def del: steps.simps)
       (simp add: connect_browser_ok attach_context_existing choose_page_existing)
  have "page s3 = select_existing_page ps \<and>
      count_list (events s3) (Call NewPage) = count_list (events s) (Call NewPage)"
    by (simp add: s3_def)
  then have "page (snd (steps [connect_viewport env opts] s3)) = select_existing_page ps \<and>
      count_list (events (snd (steps [connect_viewport env opts] s3))) (Call NewPage) =
        count_list (events s) (Call NewPage)"
    by (rule preservesD [OF preserves_single [OF connect_viewport_page]])
  then show "page (snd (acquire_connect env opts port s)) =
          Some (case find (\<lambda>p. \<not> starts_with (page_url p) ''chrome://'') ps of
                  Some p \<Rightarrow> p
                | None \<Rightarrow> last ps)"
    and "count_list (events (snd (acquire_connect env opts port s))) (Call NewPage) =
          count_list (events s) (Call NewPage)"
    using h by (simp_all add: a select_existing_page_def split: option.splits)
next
  assume c: "connectOverCDP env = None"
    and h: "(contexts env = [] \<and> newContext env = None \<or> contexts env = Context [] # cs) \<and>
      newPage env = Inr pg"
  have "\<exists>s3. acquire_connect env opts port s = steps [connect_viewport env opts] s3 \<and>
      page s3 = Some pg \<and>
      count_list (events s3) (Call NewPage) = Suc (count_list (events s) (Call NewPage))"
    using c h
    by (auto simp: acquire_connect_def connect_browser_ok attach_context_existing
        attach_context_new choose_page_new)
  then obtain s3 where a: "acquire_connect env opts port s = steps [connect_viewport env opts] s3"
    and p: "page s3 = Some pg \<and>
      count_list (events s3) (Call NewPage) = Suc (count_list (events s) (Call NewPage))"
    by blast
  have "page (snd (steps [connect_viewport env opts] s3)) = Some pg \<and>
      count_list (events (snd (steps [connect_viewport env opts] s3))) (Call NewPage) =
        Suc (count_list (events s) (Call NewPage))"
    using p by (rule preservesD [OF preserves_single [OF connect_viewport_page]])
  then show "page (snd (acquire_connect env opts port s)) = Some pg"
    and "count_list (events (snd (acquire_connect env opts port s))) (Call NewPage) =
          Suc (count_list (events s) (Call NewPage))"
    by (simp_all add: a)
qed

theorem connect_page_selection_witness:
  "page (snd (acquire_connect
     (quiet_env\<lparr>contexts := [Context [Page 1 ''chrome://newtab/'', Page 2 ''https://a.test/'',
        Page 3 ''https://b.test/'']]\<rparr>) no_options 9222 initial_state)) =
     Some (Page 2 ''https://a.test/'') \<and>
   page (snd (acquire_connect quiet_env no_options 9222 initial_state)) = Some blank_page \<and>
   count_list (events (snd (acquire_connect quiet_env no_options 9222 initial_state)))
     (Call NewPage) = 1"
  using connect_page_selection [of
      "quiet_env\<lparr>contexts := [Context [Page 1 ''chrome://newtab/'', Page 2 ''https://a.test/'',
        Page 3 ''https://b.test/'']]\<rparr>"
      "[Page 1 ''chrome://newtab/'', Page 2 ''https://a.test/'', Page 3 ''https://b.test/'']" "[]"
      no_options 9222 initial_state blank_page]
    connect_page_selection [of quiet_env "[]" "[]" no_options 9222 initial_state blank_page]
  by (simp add: quiet_env_def initial_state_def starts_with_def)

text \<open>
  C5 as stated fails: with two pages, both on \<open>chrome://\<close> addresses, the session takes
  the second and creates none.
\<close>

theorem internal_pages_are_reused:
  "page (snd (acquire_connect
     (quiet_env\<lparr>contexts := [Context [Page 1 ''chrome://newtab/'', Page 2 ''chrome://settings/'']]\<rparr>)
     no_options 9222 initial_state)) = Some (Page 2 ''chrome://settings/'') \<and>
   Call NewPage \<notin> set (events (snd (acquire_connect
     (quiet_env\<lparr>contexts := [Context [Page 1 ''chrome://newtab/'', Page 2 ''chrome://settings/'']]\<rparr>)
     no_options 9222 initial_state)))"
  by (simp add: acquire_connect_def connect_browser_ok attach_context_existing
      choose_page_existing connect_viewport_def quiet_env_def no_options_def initial_state_def
      select_existing_page_def starts_with_def skip_def)

section \<open>The session across the body and the cleanup\<close>

lemma yielded_append: "yielded (xs @ ys) = yielded xs @ yielded ys"
  by (induction xs rule: yielded.induct) simp_all

lemma called_append: "called (xs @ ys) = called xs @ called ys"
  by (induction xs rule: called.induct) simp_all

lemma steps_single: "steps [f] s = f s"
  by (cases "f s") (auto split: option.splits)

lemma post_steps:
  "P (snd (f s)) \<Longrightarrow> preserves P (steps fs) \<Longrightarrow> P (snd (steps (f # fs) s))"
  by (cases "f s") (auto split: option.splits dest: preservesD)

lemma post_try_catch:
  "P (snd (f s)) \<Longrightarrow> (\<And>e. preserves P (h e)) \<Longrightarrow> P (snd (try_catch f h s))"
  by (cases "f s") (auto simp: try_catch_def split: option.splits dest: preservesD)

lemma post_try_finally:
  "P (snd (f s)) \<Longrightarrow> preserves P g \<Longrightarrow> P (snd (try_finally f g s))"
  using preservesD [of P g "snd (f s)"]
  by (cases "f s"; cases "g (snd (f s))") (auto simp: try_finally_def split: option.splits)

text \<open>After acquisition nothing assigns \<open>browser\<close>, \<open>page\<close> or \<open>videoPath\<close>.\<close>

lemma session_kept_launch_viewport:
  "preserves (\<lambda>s. Q (browser s) (page s) (videoPath s)) (launch_viewport cfg env opts)"
  unfolding launch_viewport_def by (intro preserves_intros) simp_all

lemma session_kept_connect_viewport:
  "preserves (\<lambda>s. Q (browser s) (page s) (videoPath s)) (connect_viewport env opts)"
  unfolding connect_viewport_def by (intro preserves_intros) simp_all

lemma session_kept_attach_collectors:
  "preserves (\<lambda>s. Q (browser s) (page s) (videoPath s)) (attach_collectors env u opts)"
  unfolding attach_collectors_def by (intro preserves_intros) simp_all

lemma session_kept_navigate:
  "preserves (\<lambda>s. Q (browser s) (page s) (videoPath s)) (navigate cfg env u opts)"
  unfolding navigate_def by (intro preserves_intros) simp_all

lemma session_kept_handle_wait:
  "preserves (\<lambda>s. Q (browser s) (page s) (videoPath s)) (handle_wait cfg env opts)"
  unfolding handle_wait_def timed_wait_def by (intro preserves_intros) simp_all

lemma session_kept_report_and_capture:
  "preserves (\<lambda>s. Q (browser s) (page s) (videoPath s)) (report_and_capture env opts)"
  unfolding report_and_capture_def output_diagnostics_def output_html_def take_screenshot_def
  by (intro preserves_intros) simp_all

lemma session_kept_report_error:
  "preserves (\<lambda>s. Q (browser s) (page s) (videoPath s)) (report_error e)"
  unfolding report_error_def by (intro preserves_intros) simp_all

lemma session_kept_use:
  "preserves (\<lambda>s. Q (browser s) (page s) (videoPath s))
     (steps [attach_collectors env u opts, navigate cfg env u opts, handle_wait cfg env opts,
             report_and_capture env opts])"
  by (intro preserves_steps_Cons preserves_steps_Nil session_kept_attach_collectors
      session_kept_navigate session_kept_handle_wait session_kept_report_and_capture)

lemma browser_kept_new_context_page:
  "preserves (\<lambda>s. Q (browser s)) (new_context_page env opts)"
  unfolding new_context_page_def by (intro preserves_intros) simp_all

lemma guarded_body_completes: "fst (try_catch f report_error s) = None"
  by (cases "f s")
     (auto simp: try_catch_def report_error_def clear_timeouts_def yield_def emit_def
       split: option.splits)

lemma launch_browser_ok:
  "launch env = None \<Longrightarrow>
   launch_browser cfg env opts s =
     (None, s\<lparr>events := events s @ [Yield LaunchingBrowser, Call (Launch (effective_headless cfg opts))],
              browser := Some Launched\<rparr>)"
  by (simp add: launch_browser_def yield_def emit_def await_def assign_def)

lemma new_context_page_ok:
  "setupVideoRecording env = Inr vp \<Longrightarrow> newContext env = None \<Longrightarrow> newPage env = Inr pg \<Longrightarrow>
   fst (new_context_page env opts s) = None \<and>
   page (snd (new_context_page env opts s)) = Some pg \<and>
   videoPath (snd (new_context_page env opts s)) = vp"
  by (simp add: new_context_page_def await_value_def assign_def read_def console_log_def emit_def
      await_def skip_def)

lemma acquire_launch_mode: "\<not> connect_mode opts \<Longrightarrow> acquire cfg env opts = acquire_launch cfg env opts"
  by (simp add: acquire_def)

lemma launched_after_body:
  assumes "\<not> connect_mode opts" "launch env = None"
  shows "browser (snd (try_catch (body cfg env u opts) report_error s)) = Some Launched"
proof -
  let ?P = "\<lambda>s. browser s = Some Launched"
  have "?P (snd (launch_browser cfg env opts s))"
    by (simp add: launch_browser_ok assms)
  then have "?P (snd (acquire cfg env opts s))"
    unfolding acquire_launch_mode [OF assms(1)] acquire_launch_def
    by (rule post_steps)
       (intro preserves_steps_Cons preserves_steps_Nil browser_kept_new_context_page
         session_kept_launch_viewport)
  then have "?P (snd (body cfg env u opts s))"
    unfolding body_def by (rule post_steps) (rule session_kept_use)
  then show ?thesis
    by (rule post_try_catch) (rule session_kept_report_error)
qed

lemma recording_after_body:
  assumes "\<not> connect_mode opts" "launch env = None" "setupVideoRecording env = Inr vp"
    "newContext env = None" "newPage env = Inr pg"
  shows "page (snd (try_catch (body cfg env u opts) report_error s)) = Some pg \<and>
         videoPath (snd (try_catch (body cfg env u opts) report_error s)) = vp"
proof -
  let ?P = "\<lambda>s. page s = Some pg \<and> videoPath s = vp"
  have n: "?P (snd (new_context_page env opts (snd (launch_browser cfg env opts s))))"
    using new_context_page_ok [OF assms(3-5)] by simp
  have "acquire cfg env opts s =
      steps [new_context_page env opts, launch_viewport cfg env opts] (snd (launch_browser cfg env opts s))"
    unfolding acquire_launch_mode [OF assms(1)] acquire_launch_def
    by (simp add: launch_browser_ok assms(2))
  moreover have "?P (snd (steps [new_context_page env opts, launch_viewport cfg env opts]
      (snd (launch_browser cfg env opts s))))"
    using n by (rule post_steps) (intro preserves_single session_kept_launch_viewport)
  ultimately have "?P (snd (acquire cfg env opts s))" by simp
  then have "?P (snd (body cfg env u opts s))"
    unfolding body_def by (rule post_steps) (rule session_kept_use)
  then show ?thesis
    by (rule post_try_catch) (rule session_kept_report_error)
qed

text \<open>The events the \<open>finally\<close> block adds when the recording is finalized.\<close>

lemma stop_video_recording:
  "videoPath s = Some path \<Longrightarrow> path \<noteq> [] \<Longrightarrow> page s = Some pg \<Longrightarrow>
   stopVideoRecording env = Inr vm \<Longrightarrow>
   stop_video env s =
     (None, s\<lparr>events := events s @ Call (StopVideoRecording pg path) #
        (case vm of None \<Rightarrow> [] | Some m \<Rightarrow> if m = [] then [] else [Yield (VideoMessage m)])\<rparr>)"
  by (simp add: stop_video_def read_def await_value_def skip_def yield_def emit_def
      split: option.splits)

lemma stop_video_completes:
  "\<not> isl (stopVideoRecording env) \<Longrightarrow>
   fst (stop_video env s) = None \<and>
   timeouts (snd (stop_video env s)) = timeouts s \<and>
   browser (snd (stop_video env s)) = browser s \<and>
   (\<exists>es. events (snd (stop_video env s)) = events s @ es)"
  by (cases "stopVideoRecording env")
     (auto simp: stop_video_def read_def await_value_def skip_def yield_def emit_def
       split: option.splits)

lemma close_launched:
  "browser s = Some Launched \<Longrightarrow> \<not> connect_mode opts \<Longrightarrow> close env = None \<Longrightarrow>
   close_browser env opts s =
     (None, s\<lparr>events := events s @ [Call (BrowserClose Launched), Yield BrowserClosed]\<rparr>)"
  by (simp add: close_browser_def read_def await_def yield_def emit_def)

lemma cleanup_launched:
  assumes "browser s = Some Launched" "\<not> connect_mode opts" "close env = None"
    "\<not> isl (stopVideoRecording env)"
  shows "fst (cleanup env opts s) = None \<and>
    (\<exists>es. events (snd (cleanup env opts s)) =
       events s @ es @ [Call (BrowserClose Launched), Yield BrowserClosed])"
proof -
  let ?s1 = "snd (clear_timeouts s)"
  let ?s2 = "snd (stop_video env ?s1)"
  have c: "clear_timeouts s = (None, ?s1)" by (simp add: clear_timeouts_def)
  have v: "stop_video env ?s1 = (None, ?s2)"
    using stop_video_completes [OF assms(4), of ?s1] by (cases "stop_video env ?s1") simp
  obtain es where e: "events ?s2 = events ?s1 @ es"
    using stop_video_completes [OF assms(4), of ?s1] by blast
  have "browser ?s1 = Some Launched"
    using assms(1) by (simp add: clear_timeouts_def)
  then have b: "browser ?s2 = Some Launched"
    using stop_video_completes [OF assms(4), of ?s1] by simp
  have "cleanup env opts s = steps [stop_video env, close_browser env opts] ?s1"
    unfolding cleanup_def using c by (rule post_steps_Cons)
  also have "\<dots> = steps [close_browser env opts] ?s2"
    using v by (rule post_steps_Cons)
  also have "\<dots> = close_browser env opts ?s2"
    by (rule steps_single)
  finally have k: "cleanup env opts s = close_browser env opts ?s2" .
  have e1: "events ?s1 = events s @ map (\<lambda>t. Call (ClearTimeout t)) (timeouts s)"
    by (simp add: clear_timeouts_def)
  have "fst (cleanup env opts s) = None \<and>
      events (snd (cleanup env opts s)) =
        events s @ (map (\<lambda>t. Call (ClearTimeout t)) (timeouts s) @ es) @
          [Call (BrowserClose Launched), Yield BrowserClosed]"
    unfolding k close_launched [OF b assms(2,3)] by (simp add: e e1)
  then show ?thesis by blast
qed

lemma cleanup_recording:
  assumes "browser s = Some Launched" "\<not> connect_mode opts" "close env = None"
    "videoPath s = Some path" "path \<noteq> []" "page s = Some pg" "stopVideoRecording env = Inr vm"
  shows "fst (cleanup env opts s) = None \<and>
    (\<exists>es. events (snd (cleanup env opts s)) =
       events s @ es @ Call (StopVideoRecording pg path) #
        (case vm of None \<Rightarrow> [] | Some m \<Rightarrow> if m = [] then [] else [Yield (VideoMessage m)]) @
        [Call (BrowserClose Launched), Yield BrowserClosed])"
proof -
  have "fst (cleanup env opts s) = None \<and>
      events (snd (cleanup env opts s)) =
        events s @ map (\<lambda>t. Call (ClearTimeout t)) (timeouts s) @
          Call (StopVideoRecording pg path) #
          (case vm of None \<Rightarrow> [] | Some m \<Rightarrow> if m = [] then [] else [Yield (VideoMessage m)]) @
          [Call (BrowserClose Launched), Yield BrowserClosed]"
    using assms
    by (simp add: cleanup_def clear_timeouts_def stop_video_recording close_launched)
  then show ?thesis by blast
qed

lemma steps_await_ok:
  "steps (await c None # fs) s = steps fs (s\<lparr>events := events s @ [Call c]\<rparr>)"
  by (simp add: await_def)

lemma steps_skip: "steps (skip # fs) s = steps fs s"
  by (simp add: skip_def)

lemma try_catch_ok: "f s = (None, s') \<Longrightarrow> try_catch f h s = (None, s')"
  by (simp add: try_catch_def)

lemma try_finally_ok:
  "f s = (None, s1) \<Longrightarrow> fst (g s1) = None \<Longrightarrow> try_finally f g s = (None, snd (g s1))"
  by (cases "g s1") (simp add: try_finally_def)

lemma connect_mode_with_defaults [simp]: "connect_mode (with_defaults opts) = connect_mode opts"
  by (simp add: connect_mode_def with_defaults_def)

section \<open>Cleanup in launch mode\<close>

lemma run_reaches_body:
  assumes "ensurePlaywright env = None" "ensurePlaywrightBrowsers env = None"
    "url (resolve_url query opts) = Some u" "u \<noteq> []"
    "\<not> (connect_mode opts \<and> truthy_string (video opts))"
  shows "run cfg env query opts =
    try_catch
      (try_finally
         (try_catch (body cfg env u (with_defaults (resolve_url query opts))) report_error)
         (cleanup env (with_defaults (resolve_url query opts))))
      (\<lambda>error. yield (PlaywrightCheckError (error_message error)))
      checked_state"
proof -
  have "steps [await EnsurePlaywright (ensurePlaywright env),
      await EnsurePlaywrightBrowsers (ensurePlaywrightBrowsers env),
      open_page cfg env (resolve_url query opts)] initial_state =
    try_finally
      (try_catch (body cfg env u (with_defaults (resolve_url query opts))) report_error)
      (cleanup env (with_defaults (resolve_url query opts))) checked_state"
    using assms
    by (auto simp: open_page_def steps_await_ok steps_skip steps_single checked_state_def
        initial_state_def simp del: steps.simps)
  then show ?thesis
    by (simp add: run_def execute_def try_catch_def)
qed


text \<open>
  C1, as amended. For every launch-mode run that passes the availability checks with an
  address, and whose browser launch succeeds: on every exit path of the body, normal
  completion or an error caught and reported, cleanup runs and, when the finalization
  and close calls return, the run completes, the browser is closed and the
  \<open>Browser closed.\<close> notification is the last item emitted. If a recording was started
  (a recording path was obtained and the page was created), it is finalized with that
  page just before the browser is closed.
\<close>

theorem launch_cleanup:
  "\<not> connect_mode opts \<and> ensurePlaywright env = None \<and> ensurePlaywrightBrowsers env = None \<and>
   url (resolve_url query opts) = Some u \<and> u \<noteq> [] \<and> launch env = None \<and>
   stopVideoRecording env = Inr vm \<and> close env = None \<longrightarrow>
     fst (run cfg env query opts) = None \<and>
     (\<exists>pre. trace cfg env query opts =
        pre @ [Call (BrowserClose Launched), Yield BrowserClosed]) \<and>
     last (yielded (trace cfg env query opts)) = BrowserClosed \<and>
     (setupVideoRecording env = Inr (Some path) \<and> path \<noteq> [] \<and> newContext env = None \<and>
      newPage env = Inr pg \<longrightarrow>
        (\<exists>pre. trace cfg env query opts =
           pre @ Call (StopVideoRecording pg path) #
             (case vm of None \<Rightarrow> [] | Some m \<Rightarrow> if m = [] then [] else [Yield (VideoMessage m)]) @
             [Call (BrowserClose Launched), Yield BrowserClosed]))"
proof (intro impI)
  assume h: "\<not> connect_mode opts \<and> ensurePlaywright env = None \<and>
    ensurePlaywrightBrowsers env = None \<and> url (resolve_url query opts) = Some u \<and> u \<noteq> [] \<and>
    launch env = None \<and> stopVideoRecording env = Inr vm \<and> close env = None"
  let ?opts = "with_defaults (resolve_url query opts)"
  let ?G = "try_catch (body cfg env u ?opts) report_error"
  let ?s1 = "snd (?G checked_state)"
  let ?s2 = "snd (cleanup env ?opts ?s1)"
  have nc: "\<not> connect_mode ?opts" using h by simp
  have g: "?G checked_state = (None, ?s1)"
    using guarded_body_completes [of "body cfg env u ?opts" checked_state]
    by (cases "?G checked_state") simp
  have b: "browser ?s1 = Some Launched"
    using nc h by (simp add: launched_after_body)
  have c: "fst (cleanup env ?opts ?s1) = None \<and>
    (\<exists>es. events ?s2 = events ?s1 @ es @ [Call (BrowserClose Launched), Yield BrowserClosed])"
    using b nc h by (intro cleanup_launched) simp_all
  have c1: "fst (cleanup env ?opts ?s1) = None" using c by blast
  have tf: "try_finally ?G (cleanup env ?opts) checked_state = (None, ?s2)"
    using g c1 by (rule try_finally_ok)
  have "run cfg env query opts =
    try_catch (try_finally ?G (cleanup env ?opts))
      (\<lambda>error. yield (PlaywrightCheckError (error_message error))) checked_state"
    using h by (intro run_reaches_body) simp_all
  also have "\<dots> = (None, ?s2)"
    using tf by (rule try_catch_ok)
  finally have r: "run cfg env query opts = (None, ?s2)" .
  obtain es where e: "events ?s2 = events ?s1 @ es @ [Call (BrowserClose Launched), Yield BrowserClosed]"
    using c by blast
  have t: "trace cfg env query opts = (events ?s1 @ es) @ [Call (BrowserClose Launched), Yield BrowserClosed]"
    using r e by (simp add: trace_def)
  have v: "\<exists>pre. trace cfg env query opts =
           pre @ Call (StopVideoRecording pg path) #
             (case vm of None \<Rightarrow> [] | Some m \<Rightarrow> if m = [] then [] else [Yield (VideoMessage m)]) @
             [Call (BrowserClose Launched), Yield BrowserClosed]"
    if w: "setupVideoRecording env = Inr (Some path) \<and> path \<noteq> [] \<and> newContext env = None \<and>
      newPage env = Inr pg"
  proof -
    have p: "page ?s1 = Some pg \<and> videoPath ?s1 = Some path"
      using nc h w by (intro recording_after_body) simp_all
    have "\<exists>es. events ?s2 = events ?s1 @ es @ Call (StopVideoRecording pg path) #
        (case vm of None \<Rightarrow> [] | Some m \<Rightarrow> if m = [] then [] else [Yield (VideoMessage m)]) @
        [Call (BrowserClose Launched), Yield BrowserClosed]"
      using cleanup_recording [of ?s1 ?opts env path pg vm] b nc h w p by simp
    then obtain es' where e': "events ?s2 = events ?s1 @ es' @ Call (StopVideoRecording pg path) #
        (case vm of None \<Rightarrow> [] | Some m \<Rightarrow> if m = [] then [] else [Yield (VideoMessage m)]) @
        [Call (BrowserClose Launched), Yield BrowserClosed]"
      by blast
    have "trace cfg env query opts = (events ?s1 @ es') @ Call (StopVideoRecording pg path) #
        (case vm of None \<Rightarrow> [] | Some m \<Rightarrow> if m = [] then [] else [Yield (VideoMessage m)]) @
        [Call (BrowserClose Launched), Yield BrowserClosed]"
      using r e' by (simp add: trace_def)
    then show ?thesis by (rule exI)
  qed
  show "fst (run cfg env query opts) = None \<and>
     (\<exists>pre. trace cfg env query opts =
        pre @ [Call (BrowserClose Launched), Yield BrowserClosed]) \<and>
     last (yielded (trace cfg env query opts)) = BrowserClosed \<and>
     (setupVideoRecording env = Inr (Some path) \<and> path \<noteq> [] \<and> newContext env = None \<and>
      newPage env = Inr pg \<longrightarrow>
        (\<exists>pre. trace cfg env query opts =
           pre @ Call (StopVideoRecording pg path) #
             (case vm of None \<Rightarrow> [] | Some m \<Rightarrow> if m = [] then [] else [Yield (VideoMessage m)]) @
             [Call (BrowserClose Launched), Yield BrowserClosed]))"
  proof (intro conjI impI)
    show "fst (run cfg env query opts) = None" using r by simp
    show "\<exists>pre. trace cfg env query opts =
        pre @ [Call (BrowserClose Launched), Yield BrowserClosed]" using t by blast
    show "last (yielded (trace cfg env query opts)) = BrowserClosed"
      by (simp add: t yielded_append)
  next
    assume "setupVideoRecording env = Inr (Some path) \<and> path \<noteq> [] \<and> newContext env = None \<and>
      newPage env = Inr pg"
    then show "\<exists>pre. trace cfg env query opts =
           pre @ Call (StopVideoRecording pg path) #
             (case vm of None \<Rightarrow> [] | Some m \<Rightarrow> if m = [] then [] else [Yield (VideoMessage m)]) @
             [Call (BrowserClose Launched), Yield BrowserClosed]"
      by (rule v)
  qed
qed

theorem launch_cleanup_witness:
  "fst (run no_config
     (quiet_env\<lparr>setupVideoRecording := Inr (Some ''/tmp/video''),
        stopVideoRecording := Inr (Some ''Video saved''), goto := Some (Error ''net::ERR_FAILED'')\<rparr>)
     ''https://example.com'' (no_options\<lparr>video := Some ''/tmp''\<rparr>)) = None \<and>
   last (yielded (trace no_config
     (quiet_env\<lparr>setupVideoRecording := Inr (Some ''/tmp/video''),
        stopVideoRecording := Inr (Some ''Video saved''), goto := Some (Error ''net::ERR_FAILED'')\<rparr>)
     ''https://example.com'' (no_options\<lparr>video := Some ''/tmp''\<rparr>))) = BrowserClosed"
  using launch_cleanup [of "no_options\<lparr>video := Some ''/tmp''\<rparr>"
      "quiet_env\<lparr>setupVideoRecording := Inr (Some ''/tmp/video''),
        stopVideoRecording := Inr (Some ''Video saved''), goto := Some (Error ''net::ERR_FAILED'')\<rparr>"
      "''https://example.com''" "''https://example.com''" "Some ''Video saved''" no_config
      "''/tmp/video''" blank_page]
  by (simp add: connect_mode_def truthy_number_def truthy_string_def resolve_url_def
      no_options_def quiet_env_def)

text \<open>
  C1 as stated fails on the exit path where the launch itself throws: the error is caught
  and reported, there is no browser to close, and the last item emitted is the error.
\<close>

theorem launch_failure_closes_nothing:
  "trace no_config (quiet_env\<lparr>launch := Some (Error ''Executable not found'')\<rparr>)
     ''https://example.com'' no_options =
     [Call EnsurePlaywright, Call EnsurePlaywrightBrowsers, Yield LaunchingBrowser,
      Call (Launch True), Yield (BrowserCommandError ''Executable not found'')]"
  by (simp add: run_eval)

section \<open>Navigation, waiting and capture\<close>

lemma steps_ok_Cons: "fst (f s) = None \<Longrightarrow> steps (f # fs) s = steps fs (snd (f s))"
  by (cases "f s") simp

lemma steps_append:
  "steps (xs @ ys) s =
     (case steps xs s of (None, s') \<Rightarrow> steps ys s' | (Some e, s') \<Rightarrow> (Some e, s'))"
  by (induction xs arbitrary: s) (auto split: prod.splits option.splits)

lemma yield_diagnostics:
  "steps (map (\<lambda>m. yield (Diagnostic m)) ms) s =
     (None, s\<lparr>events := events s @ map (\<lambda>m. Yield (Diagnostic m)) ms\<rparr>)"
  by (induction ms arbitrary: s) (simp_all add: yield_def emit_def)

lemma effective_timeout_with_defaults [simp]:
  "effective_timeout cfg (with_defaults opts) = effective_timeout cfg opts"
  by (simp add: effective_timeout_def with_defaults_def)

lemma effective_timeout_resolve_url [simp]:
  "effective_timeout cfg (resolve_url query opts) = effective_timeout cfg opts"
  by (simp add: effective_timeout_def resolve_url_def)

lemma emit_diagnostics:
  "steps (map (\<lambda>m. emit (Yield (Diagnostic m))) ms) s =
     (None, s\<lparr>events := events s @ map (\<lambda>m. Yield (Diagnostic m)) ms\<rparr>)"
  using yield_diagnostics [of ms s] by (simp add: yield_def)

text \<open>Navigation to a concrete address whose load succeeds.\<close>

lemma navigate_goto:
  assumes "\<not> (u = ''current'' \<and> connect_mode opts)" "\<not> (u = ''reload-current'' \<and> connect_mode opts)"
    "page s = Some pg" "goto env = None"
  shows "navigate cfg env u opts s =
    (None, s\<lparr>events := events s @
       [Yield (NavigatingTo u), Call (Goto u (effective_timeout cfg opts)), Yield PageLoadedWaiting,
        Call (WaitForLoadState (effective_timeout cfg opts))] @
       (case waitForLoadState env of None \<Rightarrow> [] | Some e \<Rightarrow> [Yield NetworkIdleTimedOut])\<rparr>)"
  using assms
  by (auto simp: navigate_def yield_def emit_def on_page_def read_def await_def try_catch_def
      split: option.splits)

lemma report_and_capture_ok:
  assumes "snd (outputMessages env (consoleMessages s) (networkMessages s) opts) = None"
    "page s = Some pg" "content env = Inr c" "captureScreenshot env = None"
  shows "fst (report_and_capture env opts s) = None \<and>
    events (snd (report_and_capture env opts s)) =
      events s @ map (\<lambda>t. Call (ClearTimeout t)) (timeouts s) @ capture_events env opts s c"
proof -
  obtain ms where o: "outputMessages env (consoleMessages s) (networkMessages s) opts = (ms, None)"
    using assms(1) by (cases "outputMessages env (consoleMessages s) (networkMessages s) opts") simp
  show ?thesis
    using assms(2-4) o
    by (simp add: report_and_capture_def clear_timeouts_def output_diagnostics_def read_def
        emit_def emit_diagnostics skip_def output_html_def on_page_def await_value_def
        yield_def take_screenshot_def await_def capture_events_def split: option.splits)
qed

lemma handle_wait_completes: "fst (handle_wait cfg env opts s) = None"
proof -
  have "fst (try_catch f (\<lambda>error. yield (WaitError (error_message error))) s) = None" for f
    by (cases "f s") (auto simp: try_catch_def yield_def emit_def split: option.splits)
  then show ?thesis
    by (simp add: handle_wait_def skip_def split: option.splits)
qed

lemma handle_wait_keeps:
  "preserves (\<lambda>s. Q (page s) (consoleMessages s) (networkMessages s) (timeouts s))
     (handle_wait cfg env opts)"
  unfolding handle_wait_def timed_wait_def by (intro preserves_intros) simp_all

lemma handle_wait_extends: "\<exists>es. events (snd (handle_wait cfg env opts s)) = events s @ es"
proof -
  have "preserves (\<lambda>t. \<exists>es. events t = events s @ es) (handle_wait cfg env opts)"
    unfolding handle_wait_def timed_wait_def by (intro preserves_intros) auto
  then show ?thesis by (rule preservesD) simp
qed

lemma remaining_steps_capture:
  assumes "snd (outputMessages env (consoleMessages s) (networkMessages s) opts) = None"
    "page s = Some pg" "content env = Inr c" "captureScreenshot env = None"
  shows "fst (steps [handle_wait cfg env opts, report_and_capture env opts] s) = None \<and>
    (\<exists>es. events (snd (steps [handle_wait cfg env opts, report_and_capture env opts] s)) =
       events s @ es @ capture_events env opts s c)"
proof -
  let ?s1 = "snd (handle_wait cfg env opts s)"
  have k: "page ?s1 = page s \<and> consoleMessages ?s1 = consoleMessages s \<and>
      networkMessages ?s1 = networkMessages s"
    using handle_wait_keeps [of "\<lambda>p c n t. p = page s \<and> c = consoleMessages s \<and> n = networkMessages s"
        cfg env opts]
    by (simp add: preserves_def)
  obtain es where e: "events ?s1 = events s @ es"
    using handle_wait_extends by blast
  have r: "fst (report_and_capture env opts ?s1) = None \<and>
    events (snd (report_and_capture env opts ?s1)) =
      events ?s1 @ map (\<lambda>t. Call (ClearTimeout t)) (timeouts ?s1) @ capture_events env opts ?s1 c"
    using assms k by (intro report_and_capture_ok) simp_all
  have c: "capture_events env opts ?s1 c = capture_events env opts s c"
    using k by (simp add: capture_events_def)
  have "steps [handle_wait cfg env opts, report_and_capture env opts] s =
      report_and_capture env opts ?s1"
    by (simp add: steps_ok_Cons handle_wait_completes steps_single del: steps.simps)
  then have "fst (steps [handle_wait cfg env opts, report_and_capture env opts] s) = None \<and>
      events (snd (steps [handle_wait cfg env opts, report_and_capture env opts] s)) =
        events s @ (es @ map (\<lambda>t. Call (ClearTimeout t)) (timeouts ?s1)) @ capture_events env opts s c"
    using r e c by simp
  then show ?thesis by blast
qed

lemma handle_wait_events:
  "page s = Some pg \<Longrightarrow>
   handle_wait cfg env opts s = (None, s\<lparr>events := events s @ wait_events cfg env opts\<rparr>)"
  by (auto simp: handle_wait_def wait_events_def timed_wait_def try_catch_def throw_def skip_def
      yield_def emit_def console_log_def on_page_def read_def await_def
      split: option.splits sum.splits wait_config.splits)

lemma cleanup_events:
  "\<not> isl (stopVideoRecording env) \<Longrightarrow> close env = None \<Longrightarrow>
   fst (cleanup env opts s) = None \<and>
   events (snd (cleanup env opts s)) =
     events s @ map (\<lambda>t. Call (ClearTimeout t)) (timeouts s) @ finalize_events env opts s"
  by (cases "stopVideoRecording env")
     (auto simp: cleanup_def clear_timeouts_def stop_video_def close_browser_def read_def
       await_value_def await_def yield_def emit_def skip_def finalize_events_def
       split: option.splits)

lemma report_and_capture_clears: "timeouts (snd (report_and_capture env opts s)) = []"
proof -
  have "preserves (\<lambda>s. timeouts s = [])
      (steps [output_diagnostics env opts, output_html env opts, take_screenshot env opts])"
    unfolding output_diagnostics_def output_html_def take_screenshot_def
    by (intro preserves_intros) simp_all
  then show ?thesis
    unfolding report_and_capture_def
    by (rule post_steps [rotated]) (simp add: clear_timeouts_def)
qed

lemma video_with_defaults [simp]: "video (with_defaults opts) = video opts"
  by (simp add: with_defaults_def)

section \<open>A quiescence timeout\<close>

text \<open>
  C7. In a navigation to a concrete address whose load succeeds and whose wait for
  network quiescence times out, the timeout is not fatal: navigation completes after
  emitting the timeout message; the wait directive is then executed (its events follow
  the message), and the diagnostics, the markup and the screenshot steps run after it as
  the body orders them. In a run that reached navigation, when the later collaborators
  return, the trace is exactly: what came before, the navigation with the timeout
  message, the wait, the diagnostics, markup and screenshot, and the cleanup that
  finalizes the recording and closes the browser.
\<close>

theorem quiescence_timeout_not_fatal:
  "\<not> (u = ''current'' \<and> connect_mode opts) \<and> \<not> (u = ''reload-current'' \<and> connect_mode opts) \<and>
   page s = Some pg \<and> goto env = None \<and> waitForLoadState env = Some e \<longrightarrow>
     navigate cfg env u opts s =
       (None, s\<lparr>events := events s @
          [Yield (NavigatingTo u), Call (Goto u (effective_timeout cfg opts)),
           Yield PageLoadedWaiting, Call (WaitForLoadState (effective_timeout cfg opts)),
           Yield NetworkIdleTimedOut]\<rparr>) \<and>
     steps [navigate cfg env u opts, handle_wait cfg env opts, report_and_capture env opts] s =
       steps [handle_wait cfg env opts, report_and_capture env opts]
         (snd (navigate cfg env u opts s)) \<and>
     (steps [acquire cfg env opts, attach_collectors env u opts] s0 = (None, s) \<longrightarrow>
        body cfg env u opts s0 =
          steps [handle_wait cfg env opts, report_and_capture env opts]
            (snd (navigate cfg env u opts s))) \<and>
     handle_wait cfg env opts (snd (navigate cfg env u opts s)) =
       (None, s\<lparr>events := events s @
          [Yield (NavigatingTo u), Call (Goto u (effective_timeout cfg opts)),
           Yield PageLoadedWaiting, Call (WaitForLoadState (effective_timeout cfg opts)),
           Yield NetworkIdleTimedOut] @ wait_events cfg env opts\<rparr>) \<and>
     (snd (outputMessages env (consoleMessages s) (networkMessages s) opts) = None \<and>
      content env = Inr c \<and> captureScreenshot env = None \<longrightarrow>
        fst (steps [navigate cfg env u opts, handle_wait cfg env opts,
                    report_and_capture env opts] s) = None \<and>
        events (snd (steps [navigate cfg env u opts, handle_wait cfg env opts,
                            report_and_capture env opts] s)) =
          events s @
          [Yield (NavigatingTo u), Call (Goto u (effective_timeout cfg opts)),
           Yield PageLoadedWaiting, Call (WaitForLoadState (effective_timeout cfg opts)),
           Yield NetworkIdleTimedOut] @
          wait_events cfg env opts @ map (\<lambda>t. Call (ClearTimeout t)) (timeouts s) @
          capture_events env opts s c \<and>
        (ensurePlaywright env = None \<and> ensurePlaywrightBrowsers env = None \<and>
         url (resolve_url query opts0) = Some u \<and> u \<noteq> [] \<and>
         opts = with_defaults (resolve_url query opts0) \<and>
         \<not> (connect_mode opts \<and> truthy_string (video opts)) \<and>
         steps [acquire cfg env opts, attach_collectors env u opts] checked_state = (None, s) \<and>
         \<not> isl (stopVideoRecording env) \<and> close env = None \<longrightarrow>
           fst (run cfg env query opts0) = None \<and>
           trace cfg env query opts0 =
             events s @
             [Yield (NavigatingTo u), Call (Goto u (effective_timeout cfg opts)),
              Yield PageLoadedWaiting, Call (WaitForLoadState (effective_timeout cfg opts)),
              Yield NetworkIdleTimedOut] @
             wait_events cfg env opts @ map (\<lambda>t. Call (ClearTimeout t)) (timeouts s) @
             capture_events env opts s c @ finalize_events env opts s))"
  (is "_ \<longrightarrow> ?N \<and> ?ST \<and> (?AQ \<longrightarrow> ?B) \<and> ?W \<and> (?OK \<longrightarrow> ?F \<and> ?E \<and> (?R \<longrightarrow> ?RF \<and> ?RT))")
proof (intro impI)
  assume h: "\<not> (u = ''current'' \<and> connect_mode opts) \<and>
    \<not> (u = ''reload-current'' \<and> connect_mode opts) \<and>
    page s = Some pg \<and> goto env = None \<and> waitForLoadState env = Some e"
  let ?new = "[Yield (NavigatingTo u), Call (Goto u (effective_timeout cfg opts)),
           Yield PageLoadedWaiting, Call (WaitForLoadState (effective_timeout cfg opts)),
           Yield NetworkIdleTimedOut]"
  let ?s1 = "s\<lparr>events := events s @ ?new\<rparr>"
  let ?s2 = "s\<lparr>events := events s @ ?new @ wait_events cfg env opts\<rparr>"
  let ?rest = "[handle_wait cfg env opts, report_and_capture env opts]"
  let ?all = "navigate cfg env u opts # ?rest"
  let ?sB = "snd (report_and_capture env opts ?s2)"
  have n: "navigate cfg env u opts s = (None, ?s1)"
    using h navigate_goto [of u opts s pg env cfg] by simp
  have st: "steps ?all s = steps ?rest (snd (navigate cfg env u opts s))"
    by (rule steps_ok_Cons) (simp add: n)
  have b: "body cfg env u opts s0 = steps ?rest (snd (navigate cfg env u opts s))"
    if a: "steps [acquire cfg env opts, attach_collectors env u opts] s0 = (None, s)" for s0
  proof -
    have "body cfg env u opts s0 =
        steps ([acquire cfg env opts, attach_collectors env u opts] @ ?all) s0"
      by (simp add: body_def)
    also have "\<dots> = steps ?all s"
      unfolding steps_append a by simp
    finally show ?thesis using st by simp
  qed
  have w: "handle_wait cfg env opts ?s1 = (None, ?s2)"
    using h handle_wait_events [of ?s1 pg cfg env opts] by simp
  have all: "steps ?all s = report_and_capture env opts ?s2"
    unfolding st n using w
    by (simp add: steps_ok_Cons handle_wait_completes steps_single del: steps.simps)
  have ce: "capture_events env opts (s\<lparr>events := es\<rparr>) c = capture_events env opts s c" for es
    by (simp add: capture_events_def)
  have cap: "fst (report_and_capture env opts ?s2) = None \<and>
      events ?sB = events s @ ?new @ wait_events cfg env opts @
        map (\<lambda>t. Call (ClearTimeout t)) (timeouts s) @ capture_events env opts s c"
    if ok: ?OK
  proof -
    have "fst (report_and_capture env opts ?s2) = None \<and>
      events ?sB = events ?s2 @ map (\<lambda>t. Call (ClearTimeout t)) (timeouts ?s2) @
        capture_events env opts ?s2 c"
      using ok h by (intro report_and_capture_ok) simp_all
    then show ?thesis by (simp add: ce)
  qed
  have rn: "?RF \<and> ?RT" if ok: ?OK and r: ?R
  proof -
    let ?G = "try_catch (body cfg env u opts) report_error"
    have o: "opts = with_defaults (resolve_url query opts0)" using r by blast
    have pre: "ensurePlaywright env = None" "ensurePlaywrightBrowsers env = None"
      "url (resolve_url query opts0) = Some u" "u \<noteq> []"
      using r by blast+
    have fin: "\<not> isl (stopVideoRecording env)" "close env = None"
      using r by blast+
    have aq: "steps [acquire cfg env opts, attach_collectors env u opts] checked_state = (None, s)"
      using r by blast
    have "\<not> (connect_mode opts \<and> truthy_string (video opts))" using r by blast
    then have v: "\<not> (connect_mode opts0 \<and> truthy_string (video opts0))"
      by (simp add: o)
    have "run cfg env query opts0 =
        try_catch (try_finally
          (try_catch (body cfg env u (with_defaults (resolve_url query opts0))) report_error)
          (cleanup env (with_defaults (resolve_url query opts0))))
          (\<lambda>error. yield (PlaywrightCheckError (error_message error))) checked_state"
      using pre v by (rule run_reaches_body)
    then have rr: "run cfg env query opts0 =
        try_catch (try_finally ?G (cleanup env opts))
          (\<lambda>error. yield (PlaywrightCheckError (error_message error))) checked_state"
      by (simp only: o [symmetric])
    have "body cfg env u opts checked_state = steps ?rest (snd (navigate cfg env u opts s))"
      using aq by (rule b)
    also have "\<dots> = report_and_capture env opts ?s2"
      using st all by (simp only:)
    also have "\<dots> = (None, ?sB)"
      using cap [OF ok] by (simp add: prod_eq_iff)
    finally have bs: "body cfg env u opts checked_state = (None, ?sB)" .
    have g: "?G checked_state = (None, ?sB)"
      using bs by (rule try_catch_ok)
    have k: "browser ?sB = browser s \<and> page ?sB = page s \<and> videoPath ?sB = videoPath s"
      using session_kept_report_and_capture
        [of "\<lambda>b p v. b = browser s \<and> p = page s \<and> v = videoPath s" env opts]
      by (simp add: preserves_def)
    have f: "finalize_events env opts ?sB = finalize_events env opts s"
      using k by (simp add: finalize_events_def)
    have t0: "timeouts ?sB = []" by (rule report_and_capture_clears)
    have cl: "fst (cleanup env opts ?sB) = None \<and>
        events (snd (cleanup env opts ?sB)) =
          events ?sB @ map (\<lambda>t. Call (ClearTimeout t)) (timeouts ?sB) @
          finalize_events env opts ?sB"
      using fin by (rule cleanup_events)
    have tf: "try_finally ?G (cleanup env opts) checked_state =
        (None, snd (cleanup env opts ?sB))"
      using g cl [THEN conjunct1] by (rule try_finally_ok)
    have "run cfg env query opts0 = (None, snd (cleanup env opts ?sB))"
      unfolding rr using tf by (rule try_catch_ok)
    then show ?thesis
      using cl cap [OF ok] f t0 by (simp add: trace_def)
  qed
  have n': ?N using n .
  have st': ?ST using st .
  have b': "?AQ \<longrightarrow> ?B" using b by blast
  have w': ?W using w n by simp
  have c': "?OK \<longrightarrow> ?F \<and> ?E \<and> (?R \<longrightarrow> ?RF \<and> ?RT)"
  proof
    assume ok: ?OK
    have "?F \<and> ?E" using cap [OF ok] by (simp only: all)
    then show "?F \<and> ?E \<and> (?R \<longrightarrow> ?RF \<and> ?RT)" using rn [OF ok] by blast
  qed
  show "?N \<and> ?ST \<and> (?AQ \<longrightarrow> ?B) \<and> ?W \<and> (?OK \<longrightarrow> ?F \<and> ?E \<and> (?R \<longrightarrow> ?RF \<and> ?RT))"
    using n' st' b' w' c' by blast
qed

theorem quiescence_timeout_not_fatal_witness:
  "fst (run no_config
     (quiet_env\<lparr>waitForLoadState := Some (Error ''Timeout 30000ms exceeded'')\<rparr>)
     ''https://example.com''
     (no_options\<lparr>wait := Some ''time:2s'', html := Some True,
        screenshot := Some ''/tmp/out.png''\<rparr>)) = None \<and>
   trace no_config
     (quiet_env\<lparr>waitForLoadState := Some (Error ''Timeout 30000ms exceeded'')\<rparr>)
     ''https://example.com''
     (no_options\<lparr>wait := Some ''time:2s'', html := Some True,
        screenshot := Some ''/tmp/out.png''\<rparr>) =
     [Call EnsurePlaywright, Call EnsurePlaywrightBrowsers, Yield LaunchingBrowser,
      Call (Launch True), Call SetupVideoRecording, Call (NewContext None), Call NewPage,
      Call SetupConsoleLogging, Call SetupNetworkMonitoring,
      Yield (NavigatingTo ''https://example.com''), Call (Goto ''https://example.com'' 30000),
      Yield PageLoadedWaiting, Call (WaitForLoadState 30000), Yield NetworkIdleTimedOut,
      Log (LogWaiting (WaitTime (Finite 2000))), Call (SetTimeout (Finite 2000)),
      TimerFired (Timer (Finite 2000)),
      Call OutputMessages, Call PageContent, Yield HtmlBegin, Yield (HtmlContent ''<html></html>''),
      Yield HtmlEnd, Call CaptureScreenshot, Yield (ScreenshotSaved ''/tmp/out.png''),
      Call (BrowserClose Launched), Yield BrowserClosed]"
  using quiescence_timeout_not_fatal [of "''https://example.com''"
      "with_defaults (resolve_url ''https://example.com''
         (no_options\<lparr>wait := Some ''time:2s'', html := Some True,
            screenshot := Some ''/tmp/out.png''\<rparr>))"
      launched_state blank_page
      "quiet_env\<lparr>waitForLoadState := Some (Error ''Timeout 30000ms exceeded'')\<rparr>"
      "Error ''Timeout 30000ms exceeded''" no_config checked_state "''<html></html>''"
      "''https://example.com''"
      "no_options\<lparr>wait := Some ''time:2s'', html := Some True,
         screenshot := Some ''/tmp/out.png''\<rparr>"]
  by (simp add: acquire_def acquire_launch_def launch_browser_def new_context_page_def
      launch_viewport_def attach_collectors_def yield_def emit_def console_log_def assign_def
      read_def await_def await_value_def skip_def connect_mode_def truthy_string_def
      truthy_number_def effective_timeout_def effective_headless_def recordVideo_def
      with_defaults_def resolve_url_def no_options_def no_config_def quiet_env_def
      blank_page_def checked_state_def initial_state_def launched_state_def wait_events_def
      capture_events_def finalize_events_def parse_time_2s)

section \<open>A failing wait directive\<close>

lemma handle_wait_failure:
  assumes "wait opts = Some w" "w \<noteq> []" "page s = Some pg"
    "parseWaitParameter w = Inl e \<or>
     parseWaitParameter w = Inr (WaitSelector sel) \<and> waitForSelector env = Some e"
  shows "handle_wait cfg env opts s =
    (None, s\<lparr>events := events s @
       (case parseWaitParameter w of
          Inl _ \<Rightarrow> []
        | Inr waitConfig \<Rightarrow>
            [Log (LogWaiting waitConfig), Call (WaitForSelector sel (effective_timeout cfg opts))]) @
       [Yield (WaitError (error_message e))]\<rparr>)"
  using assms
  by (auto simp: handle_wait_def try_catch_def throw_def yield_def emit_def console_log_def
      on_page_def read_def await_def)

text \<open>
  C8. When the processing of a wait directive fails, because the directive is malformed
  or because the selector does not become visible in time, the failure is reported as a
  \<open>Wait error\<close> item and the wait step completes: the diagnostics, markup and screenshot
  steps run from the state it leaves, and when their collaborators return their output
  follows the report in the trace.
\<close>

theorem wait_failure_not_fatal:
  "wait opts = Some w \<and> w \<noteq> [] \<and> page s = Some pg \<and>
   (parseWaitParameter w = Inl e \<or>
    parseWaitParameter w = Inr (WaitSelector sel) \<and> waitForSelector env = Some e) \<longrightarrow>
     handle_wait cfg env opts s =
       (None, s\<lparr>events := events s @
          (case parseWaitParameter w of
             Inl _ \<Rightarrow> []
           | Inr waitConfig \<Rightarrow>
               [Log (LogWaiting waitConfig),
                Call (WaitForSelector sel (effective_timeout cfg opts))]) @
          [Yield (WaitError (error_message e))]\<rparr>) \<and>
     steps [handle_wait cfg env opts, report_and_capture env opts] s =
       report_and_capture env opts (snd (handle_wait cfg env opts s)) \<and>
     (steps [acquire cfg env opts, attach_collectors env u opts, navigate cfg env u opts] s0 =
        (None, s) \<longrightarrow>
        body cfg env u opts s0 = report_and_capture env opts (snd (handle_wait cfg env opts s))) \<and>
     (snd (outputMessages env (consoleMessages s) (networkMessages s) opts) = None \<and>
      content env = Inr c \<and> captureScreenshot env = None \<longrightarrow>
        fst (steps [handle_wait cfg env opts, report_and_capture env opts] s) = None \<and>
        events (snd (steps [handle_wait cfg env opts, report_and_capture env opts] s)) =
          events s @
          (case parseWaitParameter w of
             Inl _ \<Rightarrow> []
           | Inr waitConfig \<Rightarrow>
               [Log (LogWaiting waitConfig),
                Call (WaitForSelector sel (effective_timeout cfg opts))]) @
          [Yield (WaitError (error_message e))] @
          map (\<lambda>t. Call (ClearTimeout t)) (timeouts s) @ capture_events env opts s c)"
  (is "_ \<longrightarrow> ?C")
proof (intro impI)
  assume h: "wait opts = Some w \<and> w \<noteq> [] \<and> page s = Some pg \<and>
   (parseWaitParameter w = Inl e \<or>
    parseWaitParameter w = Inr (WaitSelector sel) \<and> waitForSelector env = Some e)"
  let ?new = "(case parseWaitParameter w of
             Inl _ \<Rightarrow> []
           | Inr waitConfig \<Rightarrow>
               [Log (LogWaiting waitConfig),
                Call (WaitForSelector sel (effective_timeout cfg opts))]) @
          [Yield (WaitError (error_message e))]"
  let ?s' = "s\<lparr>events := events s @ ?new\<rparr>"
  have n: "handle_wait cfg env opts s = (None, ?s')"
    using h handle_wait_failure [of opts w s pg e sel env cfg] by simp
  have st: "steps [handle_wait cfg env opts, report_and_capture env opts] s =
      report_and_capture env opts (snd (handle_wait cfg env opts s))"
    by (simp add: steps_ok_Cons handle_wait_completes steps_single del: steps.simps)
  have b: "body cfg env u opts s0 = report_and_capture env opts (snd (handle_wait cfg env opts s))"
    if a: "steps [acquire cfg env opts, attach_collectors env u opts, navigate cfg env u opts] s0 =
        (None, s)"
  proof -
    have "body cfg env u opts s0 =
        steps ([acquire cfg env opts, attach_collectors env u opts, navigate cfg env u opts] @
               [handle_wait cfg env opts, report_and_capture env opts]) s0"
      by (simp add: body_def)
    also have "\<dots> = steps [handle_wait cfg env opts, report_and_capture env opts] s"
      unfolding steps_append a by simp
    finally show ?thesis using st by simp
  qed
  have cap: "fst (steps [handle_wait cfg env opts, report_and_capture env opts] s) = None \<and>
        events (snd (steps [handle_wait cfg env opts, report_and_capture env opts] s)) =
          events s @ ?new @ map (\<lambda>t. Call (ClearTimeout t)) (timeouts s) @
          capture_events env opts s c"
    if w: "snd (outputMessages env (consoleMessages s) (networkMessages s) opts) = None \<and>
      content env = Inr c \<and> captureScreenshot env = None"
  proof -
    have "fst (report_and_capture env opts ?s') = None \<and>
      events (snd (report_and_capture env opts ?s')) =
        events ?s' @ map (\<lambda>t. Call (ClearTimeout t)) (timeouts ?s') @
        capture_events env opts ?s' c"
      using w h by (intro report_and_capture_ok) simp_all
    moreover have "capture_events env opts ?s' c = capture_events env opts s c"
      by (simp add: capture_events_def)
    ultimately show ?thesis
      unfolding st n by simp
  qed
  show ?C
    using n st b cap by (simp del: steps.simps)
qed

lemma parse_time_soon:
  "parseWaitParameter ''time:soon'' =
     Inl (Error ''Invalid time duration format: time:soon. Expected format: time:Xs, time:Xms, or time:Xm'')"
  by (simp add: parseWaitParameter_def starts_with_def parseTimeDuration_def match_timeRegex_def
      is_digit_def invalid_time_message_def)

lemma parse_hash_main: "parseWaitParameter ''#main'' = Inr (WaitSelector ''#main'')"
  by (simp add: parseWaitParameter_def starts_with_def parseTimeDuration_def match_timeRegex_def
      is_digit_def)

theorem wait_failure_not_fatal_witness:
  "handle_wait no_config quiet_env (no_options\<lparr>wait := Some ''time:soon''\<rparr>)
     (initial_state\<lparr>page := Some blank_page\<rparr>) =
     (None, initial_state\<lparr>page := Some blank_page, events :=
        [Yield (WaitError ''Invalid time duration format: time:soon. Expected format: time:Xs, time:Xms, or time:Xm'')]\<rparr>) \<and>
   handle_wait no_config (quiet_env\<lparr>waitForSelector := Some (Error ''Timeout 30000ms exceeded'')\<rparr>)
     (no_options\<lparr>wait := Some ''#main''\<rparr>) (initial_state\<lparr>page := Some blank_page\<rparr>) =
     (None, initial_state\<lparr>page := Some blank_page, events :=
        [Log (LogWaiting (WaitSelector ''#main'')), Call (WaitForSelector ''#main'' 30000),
         Yield (WaitError ''Timeout 30000ms exceeded'')]\<rparr>) \<and>
   yielded (trace no_config
     (quiet_env\<lparr>waitForSelector := Some (Error ''Timeout 30000ms exceeded''),
        setupConsoleLogging := Inr [''[log] ready'']\<rparr>)
     ''https://example.com''
     (no_options\<lparr>wait := Some ''#main'', html := Some True, screenshot := Some ''/tmp/out.png''\<rparr>)) =
     [LaunchingBrowser, NavigatingTo ''https://example.com'', PageLoadedWaiting,
      WaitError ''Timeout 30000ms exceeded'', Diagnostic ''[log] ready'', HtmlBegin,
      HtmlContent ''<html></html>'', HtmlEnd, ScreenshotSaved ''/tmp/out.png'', BrowserClosed]"
proof -
  have "yielded (trace no_config
     (quiet_env\<lparr>waitForSelector := Some (Error ''Timeout 30000ms exceeded''),
        setupConsoleLogging := Inr [''[log] ready'']\<rparr>)
     ''https://example.com''
     (no_options\<lparr>wait := Some ''#main'', html := Some True, screenshot := Some ''/tmp/out.png''\<rparr>)) =
     [LaunchingBrowser, NavigatingTo ''https://example.com'', PageLoadedWaiting,
      WaitError ''Timeout 30000ms exceeded'', Diagnostic ''[log] ready'', HtmlBegin,
      HtmlContent ''<html></html>'', HtmlEnd, ScreenshotSaved ''/tmp/out.png'', BrowserClosed]"
    by (simp add: run_eval parse_hash_main)
  then show ?thesis
    using wait_failure_not_fatal [of "no_options\<lparr>wait := Some ''time:soon''\<rparr>" "''time:soon''"
        "initial_state\<lparr>page := Some blank_page\<rparr>" blank_page
        "Error ''Invalid time duration format: time:soon. Expected format: time:Xs, time:Xms, or time:Xm''"
        "[]" quiet_env no_config "[]" initial_state "[]"]
      wait_failure_not_fatal [of "no_options\<lparr>wait := Some ''#main''\<rparr>" "''#main''"
        "initial_state\<lparr>page := Some blank_page\<rparr>" blank_page
        "Error ''Timeout 30000ms exceeded''" "''#main''"
        "quiet_env\<lparr>waitForSelector := Some (Error ''Timeout 30000ms exceeded'')\<rparr>"
        no_config "[]" initial_state "[]"]
    by (simp add: parse_time_soon parse_hash_main quiet_env_def no_options_def no_config_def
        effective_timeout_def initial_state_def)
qed

section \<open>The trace only grows\<close>

text \<open>Every step only adds to the trace.\<close>

lemma grows_acquire:
  assumes "\<And>es es'. Q es \<Longrightarrow> Q (es @ es')"
  shows "preserves (\<lambda>s. Q (events s)) (acquire cfg env opts)"
  unfolding acquire_def acquire_connect_def acquire_launch_def connect_browser_def
    attach_context_def choose_page_def connect_viewport_def launch_browser_def
    new_context_page_def launch_viewport_def Let_def
  by (intro preserves_intros) (simp_all add: assms)

lemma grows_attach_collectors:
  assumes "\<And>es es'. Q es \<Longrightarrow> Q (es @ es')"
  shows "preserves (\<lambda>s. Q (events s)) (attach_collectors env u opts)"
  unfolding attach_collectors_def by (intro preserves_intros) (simp_all add: assms)

lemma grows_navigate:
  assumes "\<And>es es'. Q es \<Longrightarrow> Q (es @ es')"
  shows "preserves (\<lambda>s. Q (events s)) (navigate cfg env u opts)"
  unfolding navigate_def by (intro preserves_intros) (simp_all add: assms)

lemma grows_handle_wait:
  assumes "\<And>es es'. Q es \<Longrightarrow> Q (es @ es')"
  shows "preserves (\<lambda>s. Q (events s)) (handle_wait cfg env opts)"
  unfolding handle_wait_def timed_wait_def by (intro preserves_intros) (simp_all add: assms)

lemma grows_report_and_capture:
  assumes "\<And>es es'. Q es \<Longrightarrow> Q (es @ es')"
  shows "preserves (\<lambda>s. Q (events s)) (report_and_capture env opts)"
  unfolding report_and_capture_def output_diagnostics_def output_html_def take_screenshot_def
  by (intro preserves_intros) (simp_all add: assms)

lemma grows_report_error:
  assumes "\<And>es es'. Q es \<Longrightarrow> Q (es @ es')"
  shows "preserves (\<lambda>s. Q (events s)) (report_error e)"
  unfolding report_error_def by (intro preserves_intros) (simp_all add: assms)

lemma grows_cleanup:
  assumes "\<And>es es'. Q es \<Longrightarrow> Q (es @ es')"
  shows "preserves (\<lambda>s. Q (events s)) (cleanup env opts)"
  unfolding cleanup_def stop_video_def close_browser_def
  by (intro preserves_intros) (simp_all add: assms)

text \<open>
  What holds of the trace when the body is left, by completion or by a throw, still
  holds when the run ends.
\<close>

lemma grows_after_body:
  assumes m: "\<And>es es'. Q es \<Longrightarrow> Q (es @ es')"
    and r: "run cfg env query opts =
      try_catch (try_finally (try_catch b report_error) (cleanup env opts'))
        (\<lambda>error. yield (PlaywrightCheckError (error_message error))) s0"
    and q: "Q (events (snd (b s0)))"
  shows "Q (trace cfg env query opts)"
proof -
  let ?P = "\<lambda>s. Q (events s)"
  have "?P (snd (try_catch b report_error s0))"
    using q by (rule post_try_catch) (rule grows_report_error [where Q = Q], rule m)
  then have "?P (snd (try_finally (try_catch b report_error) (cleanup env opts') s0))"
    by (rule post_try_finally) (rule grows_cleanup [where Q = Q], rule m)
  then have "?P (snd (try_catch (try_finally (try_catch b report_error) (cleanup env opts'))
        (\<lambda>error. yield (PlaywrightCheckError (error_message error))) s0))"
    by (rule post_try_catch) (intro preserves_yield, simp add: m)
  then show ?thesis by (simp add: trace_def r)
qed

text \<open>
  What holds of the trace after the body's first \<open>n\<close> phases completed holds when the body
  is left.
\<close>

lemma grows_rest_of_body:
  assumes m: "\<And>es es'. Q es \<Longrightarrow> Q (es @ es')"
    and q: "Q (events (snd (steps [acquire cfg env opts, attach_collectors env u opts,
        navigate cfg env u opts] s)))"
  shows "Q (events (snd (body cfg env u opts s)))"
proof -
  let ?pre = "[acquire cfg env opts, attach_collectors env u opts, navigate cfg env u opts]"
  let ?post = "[handle_wait cfg env opts, report_and_capture env opts]"
  have p: "preserves (\<lambda>s. Q (events s)) (steps ?post)"
    by (intro preserves_steps_Cons preserves_steps_Nil grows_handle_wait [where Q = Q]
        grows_report_and_capture [where Q = Q]) (rule m, assumption)+
  have "body cfg env u opts s = steps (?pre @ ?post) s" by (simp add: body_def)
  then have "body cfg env u opts s =
      (case steps ?pre s of (None, s') \<Rightarrow> steps ?post s' | (Some e, s') \<Rightarrow> (Some e, s'))"
    by (simp only: steps_append)
  then show ?thesis
    using q preservesD [OF p, of "snd (steps ?pre s)"]
    by (cases "steps ?pre s") (auto split: option.splits)
qed

lemma launch_viewport_ok:
  "setViewportSize env = None \<Longrightarrow> page s = Some pg \<Longrightarrow> fst (launch_viewport cfg env opts s) = None"
  by (simp add: launch_viewport_def skip_def on_page_def read_def await_def yield_def emit_def
      split: option.splits)

lemma acquire_launch_ok:
  assumes "\<not> connect_mode opts" "launch env = None" "setupVideoRecording env = Inr vp"
    "newContext env = None" "newPage env = Inr pg" "setViewportSize env = None"
  shows "fst (acquire cfg env opts s) = None \<and> page (snd (acquire cfg env opts s)) = Some pg"
proof -
  let ?s1 = "snd (launch_browser cfg env opts s)"
  let ?s2 = "snd (new_context_page env opts ?s1)"
  have 1: "fst (launch_browser cfg env opts s) = None"
    by (simp add: launch_browser_ok assms(2))
  have 2: "fst (new_context_page env opts ?s1) = None" "page ?s2 = Some pg"
    using new_context_page_ok [OF assms(3-5), of opts ?s1] by simp_all
  have 3: "fst (launch_viewport cfg env opts ?s2) = None"
    using assms(6) 2(2) by (rule launch_viewport_ok)
  have 4: "page (snd (launch_viewport cfg env opts ?s2)) = Some pg"
    using 2(2) session_kept_launch_viewport [of "\<lambda>b p v. p = Some pg" cfg env opts]
    by (simp add: preserves_def)
  have "acquire cfg env opts s = launch_viewport cfg env opts ?s2"
    unfolding acquire_launch_mode [OF assms(1)] acquire_launch_def
    by (simp add: steps_ok_Cons 1 2(1) steps_single del: steps.simps)
  then show ?thesis using 3 4 by simp
qed

lemma attach_collectors_ok:
  "\<not> isl (setupConsoleLogging env) \<Longrightarrow> \<not> isl (setupNetworkMonitoring env) \<Longrightarrow>
   fst (attach_collectors env u opts s) = None"
  by (cases "setupConsoleLogging env"; cases "setupNetworkMonitoring env")
     (simp_all add: attach_collectors_def console_log_def emit_def skip_def await_value_def
       assign_def)

lemma navigate_goto_starts:
  assumes "\<not> (u = ''current'' \<and> connect_mode opts)" "\<not> (u = ''reload-current'' \<and> connect_mode opts)"
    "page s = Some pg"
  shows "\<exists>es. events (snd (navigate cfg env u opts s)) =
    events s @ Yield (NavigatingTo u) # Call (Goto u (effective_timeout cfg opts)) # es"
  using assms
  by (cases "goto env"; cases "waitForLoadState env")
     (auto simp: navigate_def yield_def emit_def on_page_def read_def await_def try_catch_def)

section \<open>The sentinels in launch mode\<close>

text \<open>
  C10. In launch mode the locators \<open>current\<close> and \<open>reload-current\<close> are not special:
  navigation is the same sequence as for any address, it starts with
  \<open>Navigating to current...\<close> and a \<open>goto\<close> of the literal string, and a run whose
  checks, acquisition and collectors succeed contains that \<open>goto\<close>: the
  combination is neither rejected nor skipped.
\<close>

theorem launch_mode_sentinels_navigate:
  "\<not> connect_mode opts \<and> (u = ''current'' \<or> u = ''reload-current'') \<longrightarrow>
     navigate cfg env u opts =
       steps [
         yield (NavigatingTo u),
         on_page (\<lambda>_. await (Goto u (effective_timeout cfg opts)) (goto env)),
         yield PageLoadedWaiting,
         try_catch
           (on_page (\<lambda>_. await (WaitForLoadState (effective_timeout cfg opts)) (waitForLoadState env)))
           (\<lambda>error. yield NetworkIdleTimedOut)] \<and>
     (page s = Some pg \<longrightarrow>
        (\<exists>es. events (snd (navigate cfg env u opts s)) =
           events s @ Yield (NavigatingTo u) # Call (Goto u (effective_timeout cfg opts)) # es)) \<and>
     (ensurePlaywright env = None \<and> ensurePlaywrightBrowsers env = None \<and>
      url (resolve_url query opts) = Some u \<and> launch env = None \<and>
      setupVideoRecording env = Inr vp \<and> newContext env = None \<and> newPage env = Inr pg \<and>
      setViewportSize env = None \<and> \<not> isl (setupConsoleLogging env) \<and>
      \<not> isl (setupNetworkMonitoring env) \<longrightarrow>
        (\<exists>es es'. trace cfg env query opts =
           es @ Yield (NavigatingTo u) # Call (Goto u (effective_timeout cfg opts)) # es'))"
  (is "_ \<longrightarrow> ?A \<and> ?B \<and> ?C")
proof (intro impI)
  assume h: "\<not> connect_mode opts \<and> (u = ''current'' \<or> u = ''reload-current'')"
  have g: "\<not> (u = ''current'' \<and> connect_mode opts)" "\<not> (u = ''reload-current'' \<and> connect_mode opts)"
    using h by simp_all
  have a: ?A using h by (auto simp: navigate_def)
  have b: ?B using navigate_goto_starts [OF g] by blast
  have c: ?C
  proof (intro impI)
    assume w: "ensurePlaywright env = None \<and> ensurePlaywrightBrowsers env = None \<and>
      url (resolve_url query opts) = Some u \<and> launch env = None \<and>
      setupVideoRecording env = Inr vp \<and> newContext env = None \<and> newPage env = Inr pg \<and>
      setViewportSize env = None \<and> \<not> isl (setupConsoleLogging env) \<and>
      \<not> isl (setupNetworkMonitoring env)"
    let ?opts = "with_defaults (resolve_url query opts)"
    let ?t = "effective_timeout cfg opts"
    let ?Q = "\<lambda>es. \<exists>pre post. es = pre @ Yield (NavigatingTo u) # Call (Goto u ?t) # post"
    have m: "?Q (es @ es')" if q0: "?Q es" for es es'
    proof -
      obtain pre post where "es = pre @ Yield (NavigatingTo u) # Call (Goto u ?t) # post"
        using q0 by blast
      then have "es @ es' = pre @ Yield (NavigatingTo u) # Call (Goto u ?t) # (post @ es')"
        by simp
      then show ?thesis by blast
    qed
    have nc: "\<not> connect_mode ?opts" using h by simp
    have g': "\<not> (u = ''current'' \<and> connect_mode ?opts)"
      "\<not> (u = ''reload-current'' \<and> connect_mode ?opts)"
      using nc by simp_all
    let ?s1 = "snd (acquire cfg env ?opts checked_state)"
    let ?s2 = "snd (attach_collectors env u ?opts ?s1)"
    have 1: "fst (acquire cfg env ?opts checked_state) = None \<and> page ?s1 = Some pg"
      using nc w by (intro acquire_launch_ok) simp_all
    have 2: "fst (attach_collectors env u ?opts ?s1) = None"
      using w by (intro attach_collectors_ok) simp_all
    have 3: "page ?s2 = Some pg"
      using 1 session_kept_attach_collectors [of "\<lambda>b p v. p = Some pg" env u ?opts]
      by (simp add: preserves_def)
    have "steps [acquire cfg env ?opts, attach_collectors env u ?opts, navigate cfg env u ?opts]
        checked_state = navigate cfg env u ?opts ?s2"
      using 1 2 by (simp add: steps_ok_Cons steps_single del: steps.simps)
    moreover have "?Q (events (snd (navigate cfg env u ?opts ?s2)))"
      using navigate_goto_starts [OF g' 3, of cfg env] by auto
    ultimately have "?Q (events (snd (steps [acquire cfg env ?opts, attach_collectors env u ?opts,
        navigate cfg env u ?opts] checked_state)))"
      by simp
    then have q: "?Q (events (snd (body cfg env u ?opts checked_state)))"
      by (rule grows_rest_of_body [where Q = ?Q, rotated]) (rule m)
    have r: "run cfg env query opts =
      try_catch (try_finally (try_catch (body cfg env u ?opts) report_error) (cleanup env ?opts))
        (\<lambda>error. yield (PlaywrightCheckError (error_message error))) checked_state"
      using w h by (intro run_reaches_body) auto
    show "\<exists>es es'. trace cfg env query opts =
        es @ Yield (NavigatingTo u) # Call (Goto u (effective_timeout cfg opts)) # es'"
      by (rule grows_after_body [where Q = ?Q, OF _ r q]) (rule m)
  qed
  show "?A \<and> ?B \<and> ?C" using a b c by blast
qed

theorem launch_mode_sentinels_navigate_witness:
  "trace no_config quiet_env ''current'' no_options =
     [Call EnsurePlaywright, Call EnsurePlaywrightBrowsers, Yield LaunchingBrowser,
      Call (Launch True), Call SetupVideoRecording, Call (NewContext None), Call NewPage,
      Call SetupConsoleLogging, Call SetupNetworkMonitoring, Yield (NavigatingTo ''current''),
      Call (Goto ''current'' 30000), Yield PageLoadedWaiting, Call (WaitForLoadState 30000),
      Call OutputMessages, Call CaptureScreenshot, Call (BrowserClose Launched),
      Yield BrowserClosed] \<and>
   (\<exists>es es'. trace no_config quiet_env ''reload-current'' no_options =
      es @ Yield (NavigatingTo ''reload-current'') # Call (Goto ''reload-current'' 30000) # es')"
proof -
  have "trace no_config quiet_env ''current'' no_options =
     [Call EnsurePlaywright, Call EnsurePlaywrightBrowsers, Yield LaunchingBrowser,
      Call (Launch True), Call SetupVideoRecording, Call (NewContext None), Call NewPage,
      Call SetupConsoleLogging, Call SetupNetworkMonitoring, Yield (NavigatingTo ''current''),
      Call (Goto ''current'' 30000), Yield PageLoadedWaiting, Call (WaitForLoadState 30000),
      Call OutputMessages, Call CaptureScreenshot, Call (BrowserClose Launched),
      Yield BrowserClosed]"
    by (simp add: run_eval)
  then show ?thesis
    using launch_mode_sentinels_navigate [of no_options "''reload-current''" no_config quiet_env
        initial_state blank_page "''reload-current''" None]
    by (simp add: connect_mode_def truthy_number_def truthy_string_def resolve_url_def
        no_options_def quiet_env_def no_config_def effective_timeout_def)
qed

section \<open>Connect mode on the current page\<close>

lemma connectTo_with_defaults [simp]: "connectTo (with_defaults opts) = connectTo opts"
  by (simp add: with_defaults_def)

lemma connectTo_resolve_url [simp]: "connectTo (resolve_url query opts) = connectTo opts"
  by (simp add: resolve_url_def)

lemma acquire_connect_mode:
  "connectTo opts = Some port \<Longrightarrow> port \<noteq> 0 \<Longrightarrow>
   acquire cfg env opts = acquire_connect env opts port"
  by (simp add: acquire_def connect_mode_def truthy_number_def)

lemma navigate_current:
  "connect_mode opts \<Longrightarrow>
   navigate cfg env ''current'' opts = on_page (\<lambda>p. yield (UsingCurrentPage (page_url p)))"
  by (simp add: navigate_def)

lemma allowed_trace:
  assumes "list_all (allowed_on_current port) es"
  shows "(\<forall>c \<in> set (called es). \<not> navigation_call c) \<and> BrowserClosed \<notin> set (yielded es) \<and>
    (\<forall>h. BrowserClose h \<in> set (called es) \<longrightarrow> h = Connected port)"
  using assms
proof (induction es)
  case Nil
  then show ?case by simp
next
  case (Cons e es)
  show ?case
  proof (cases e)
    case (Call c)
    then show ?thesis using Cons by (cases c) auto
  qed (use Cons in auto)
qed

text \<open>The invariant of a connect-mode run on the current page.\<close>

lemma current_acquire:
  "preserves (\<lambda>s. (browser s = None \<or> browser s = Some (Connected port)) \<and>
       list_all (allowed_on_current port) (events s))
     (acquire_connect env opts port)"
  unfolding acquire_connect_def connect_browser_def attach_context_def choose_page_def
    connect_viewport_def Let_def
  by (intro preserves_intros) simp_all

lemma current_body:
  assumes "connectTo opts = Some port" "port \<noteq> 0"
  shows "preserves (\<lambda>s. (browser s = None \<or> browser s = Some (Connected port)) \<and>
       list_all (allowed_on_current port) (events s))
     (body cfg env ''current'' opts)"
proof -
  have c: "connect_mode opts" using assms by (simp add: connect_mode_def truthy_number_def)
  show ?thesis
    unfolding body_def acquire_connect_mode [OF assms] navigate_current [OF c]
      attach_collectors_def handle_wait_def timed_wait_def report_and_capture_def
      output_diagnostics_def output_html_def take_screenshot_def
    by (intro preserves_intros current_acquire) (auto simp: list_all_iff)
qed

lemma current_close:
  "connect_mode opts \<Longrightarrow>
   preserves (\<lambda>s. (browser s = None \<or> browser s = Some (Connected port)) \<and>
       list_all (allowed_on_current port) (events s))
     (close_browser env opts)"
  by (auto simp: preserves_def close_browser_def read_def await_def skip_def)

lemma current_cleanup:
  "connect_mode opts \<Longrightarrow>
   preserves (\<lambda>s. (browser s = None \<or> browser s = Some (Connected port)) \<and>
       list_all (allowed_on_current port) (events s))
     (cleanup env opts)"
  unfolding cleanup_def stop_video_def
  by (intro preserves_intros current_close) (auto simp: list_all_iff)

lemma current_execute:
  assumes "connectTo opts = Some port" "port \<noteq> 0" "url (resolve_url query opts) = Some ''current''"
  shows "preserves (\<lambda>s. (browser s = None \<or> browser s = Some (Connected port)) \<and>
       list_all (allowed_on_current port) (events s))
     (execute cfg env query opts)"
proof -
  let ?opts = "with_defaults (resolve_url query opts)"
  have c: "connect_mode ?opts" using assms by (simp add: connect_mode_def truthy_number_def)
  have p: "connectTo ?opts = Some port" using assms by simp
  have o: "open_page cfg env (resolve_url query opts) =
    steps [
      (if connect_mode (resolve_url query opts) \<and> truthy_string (video (resolve_url query opts))
       then throw (Error video_conflict_message) else skip),
      try_finally (try_catch (body cfg env ''current'' ?opts) report_error) (cleanup env ?opts)]"
    using assms(3) by (simp add: open_page_def)
  show ?thesis
    unfolding execute_def o report_error_def
    by (intro preserves_intros current_body [OF p assms(2)] current_cleanup [OF c])
       (auto simp: list_all_iff)
qed

lemma grows_connect_rest:
  assumes "\<And>es es'. Q es \<Longrightarrow> Q (es @ es')"
  shows "preserves (\<lambda>s. Q (events s))
    (steps [attach_context env opts, choose_page env, connect_viewport env opts])"
  unfolding attach_context_def choose_page_def connect_viewport_def Let_def
  by (intro preserves_intros) (simp_all add: assms)

lemma grows_use:
  assumes "\<And>es es'. Q es \<Longrightarrow> Q (es @ es')"
  shows "preserves (\<lambda>s. Q (events s))
    (steps [attach_collectors env u opts, navigate cfg env u opts, handle_wait cfg env opts,
            report_and_capture env opts])"
  by (intro preserves_steps_Cons preserves_steps_Nil grows_attach_collectors [where Q = Q]
      grows_navigate [where Q = Q] grows_handle_wait [where Q = Q]
      grows_report_and_capture [where Q = Q]) (rule assms, assumption)+

lemma connect_viewport_ok:
  "setViewportSize env = None \<Longrightarrow> page s = Some pg \<Longrightarrow> fst (connect_viewport env opts s) = None"
  by (simp add: connect_viewport_def skip_def on_page_def read_def await_def split: option.splits)

lemma connect_viewport_quiet:
  "preserves (\<lambda>s. Q (page s) (yielded (events s))) (connect_viewport env opts)"
  unfolding connect_viewport_def
  by (intro preserves_intros) (simp_all add: yielded_append)

lemma attach_collectors_quiet:
  "preserves (\<lambda>s. Q (page s) (yielded (events s))) (attach_collectors env u opts)"
  unfolding attach_collectors_def
  by (intro preserves_intros) (simp_all add: yielded_append)

lemma select_existing_some: "ps \<noteq> [] \<Longrightarrow> \<exists>pg. select_existing_page ps = Some pg"
  by (simp add: select_existing_page_def split: option.splits)

lemma acquire_connect_after_page:
  assumes "steps [connect_browser env port, attach_context env opts, choose_page env] s = (None, s3)"
    "page s3 = Some pg" "setViewportSize env = None"
  shows "fst (acquire_connect env opts port s) = None \<and>
    page (snd (acquire_connect env opts port s)) = Some pg \<and>
    yielded (events (snd (acquire_connect env opts port s))) = yielded (events s3)"
proof -
  have "acquire_connect env opts port s =
      steps ([connect_browser env port, attach_context env opts, choose_page env] @
             [connect_viewport env opts]) s"
    by (simp add: acquire_connect_def)
  also have "\<dots> = connect_viewport env opts s3"
    unfolding steps_append assms(1) by (simp add: steps_single del: steps.simps)
  finally have a: "acquire_connect env opts port s = connect_viewport env opts s3" .
  have "page (snd (connect_viewport env opts s3)) = Some pg \<and>
      yielded (events (snd (connect_viewport env opts s3))) = yielded (events s3)"
    using connect_viewport_quiet [of "\<lambda>p ys. p = Some pg \<and> ys = yielded (events s3)" env opts]
      assms(2)
    by (simp add: preserves_def)
  then show ?thesis
    using connect_viewport_ok [OF assms(3,2), of opts] by (simp add: a)
qed

lemma acquire_connect_existing:
  assumes "connectOverCDP env = None" "contexts env = Context ps # cs" "ps \<noteq> []"
    "select_existing_page ps = Some pg" "setViewportSize env = None"
  shows "fst (acquire_connect env opts port s) = None \<and>
    page (snd (acquire_connect env opts port s)) = Some pg \<and>
    yielded (events (snd (acquire_connect env opts port s))) =
      yielded (events s) @ [Connecting port, UsingExistingPage]"
proof -
  obtain s3 where 1: "steps [connect_browser env port, attach_context env opts, choose_page env] s =
      (None, s3)"
    and 2: "page s3 = Some pg"
    and 3: "yielded (events s3) = yielded (events s) @ [Connecting port, UsingExistingPage]"
    using assms(1-4)
    by (simp add: connect_browser_ok attach_context_existing choose_page_existing yielded_append)
  show ?thesis
    using acquire_connect_after_page [OF 1 2 assms(5)] 3 by simp
qed

lemma acquire_connect_new:
  assumes "connectOverCDP env = None"
    "contexts env = [] \<and> newContext env = None \<or> contexts env = Context [] # cs"
    "newPage env = Inr pg" "setViewportSize env = None"
  shows "fst (acquire_connect env opts port s) = None \<and>
    page (snd (acquire_connect env opts port s)) = Some pg \<and>
    yielded (events (snd (acquire_connect env opts port s))) =
      yielded (events s) @ [Connecting port]"
proof -
  obtain s3 where 1: "steps [connect_browser env port, attach_context env opts, choose_page env] s =
      (None, s3)"
    and 2: "page s3 = Some pg"
    and 3: "yielded (events s3) = yielded (events s) @ [Connecting port]"
    using assms(1-3)
    by (auto simp: connect_browser_ok attach_context_existing attach_context_new choose_page_new
        yielded_append)
  show ?thesis
    using acquire_connect_after_page [OF 1 2 assms(4)] 3 by simp
qed

lemma yielded_prefix_grows:
  "\<exists>rest. yielded es = ms @ rest \<Longrightarrow> \<exists>rest. yielded (es @ es') = ms @ rest"
  by (auto simp: yielded_append)

lemma current_prefix:
  assumes "connect_mode opts"
    "fst (acquire cfg env opts s0) = None" "page (snd (acquire cfg env opts s0)) = Some pg"
    "yielded (events (snd (acquire cfg env opts s0))) = ms"
    "\<not> isl (setupConsoleLogging env)" "\<not> isl (setupNetworkMonitoring env)"
  shows "\<exists>rest. yielded (events (snd (body cfg env ''current'' opts s0))) =
    (ms @ [UsingCurrentPage (page_url pg)]) @ rest"
proof -
  let ?s1 = "snd (acquire cfg env opts s0)"
  let ?s2 = "snd (attach_collectors env ''current'' opts ?s1)"
  have 2: "fst (attach_collectors env ''current'' opts ?s1) = None"
    using assms(5,6) by (rule attach_collectors_ok)
  have 3: "page ?s2 = Some pg \<and> yielded (events ?s2) = ms"
    using attach_collectors_quiet [of "\<lambda>p ys. p = Some pg \<and> ys = ms" env "''current''" opts]
      assms(3,4)
    by (simp add: preserves_def)
  have 4: "navigate cfg env ''current'' opts ?s2 =
      (None, ?s2\<lparr>events := events ?s2 @ [Yield (UsingCurrentPage (page_url pg))]\<rparr>)"
    using 3 by (simp add: navigate_current [OF assms(1)] on_page_def read_def yield_def emit_def)
  have "steps [acquire cfg env opts, attach_collectors env ''current'' opts,
      navigate cfg env ''current'' opts] s0 = navigate cfg env ''current'' opts ?s2"
    using assms(2) 2 by (simp add: steps_ok_Cons steps_single del: steps.simps)
  then have "yielded (events (snd (steps [acquire cfg env opts,
      attach_collectors env ''current'' opts, navigate cfg env ''current'' opts] s0))) =
      (ms @ [UsingCurrentPage (page_url pg)]) @ []"
    using 3 4 by (simp add: yielded_append)
  then have "\<exists>rest. yielded (events (snd (steps [acquire cfg env opts,
      attach_collectors env ''current'' opts, navigate cfg env ''current'' opts] s0))) =
      (ms @ [UsingCurrentPage (page_url pg)]) @ rest"
    by (rule exI)
  then show ?thesis
    by (rule grows_rest_of_body
        [where Q = "\<lambda>es. \<exists>rest. yielded es = (ms @ [UsingCurrentPage (page_url pg)]) @ rest", rotated])
       (rule yielded_prefix_grows)
qed

lemma connecting_first:
  assumes "connectTo opts = Some port" "port \<noteq> 0" "yielded (events s0) = []"
  shows "\<exists>rest. yielded (events (snd (body cfg env u opts s0))) = [Connecting port] @ rest"
proof -
  let ?Q = "\<lambda>es. \<exists>rest. yielded es = [Connecting port] @ rest"
  let ?P = "\<lambda>s. ?Q (events s)"
  have m: "\<And>es es'. ?Q es \<Longrightarrow> ?Q (es @ es')" by (rule yielded_prefix_grows)
  have "?P (snd (connect_browser env port s0))"
    using assms(3)
    by (cases "connectOverCDP env")
       (simp_all add: connect_browser_def yield_def emit_def await_def assign_def yielded_append)
  then have "?P (snd (acquire_connect env opts port s0))"
    unfolding acquire_connect_def
    by (rule post_steps) (rule grows_connect_rest [where Q = ?Q], rule m)
  then have "?P (snd (acquire cfg env opts s0))"
    by (simp only: acquire_connect_mode [OF assms(1,2)])
  then show ?thesis
    unfolding body_def
    by (rule post_steps) (rule grows_use [where Q = ?Q], rule m)
qed

lemma called_iff: "c \<in> set (called es) \<longleftrightarrow> Call c \<in> set es"
  by (induction es rule: called.induct) auto

lemma snd_try_finally: "snd (try_finally f g s) = snd (g (snd (f s)))"
  by (cases "f s"; cases "g (snd (f s))") (auto simp: try_finally_def split: option.splits)

lemma connection_kept_connect_rest:
  "preserves (\<lambda>s. Q (browser s) (videoPath s))
     (steps [attach_context env opts, choose_page env, connect_viewport env opts])"
  unfolding attach_context_def choose_page_def connect_viewport_def Let_def
  by (intro preserves_intros) simp_all

lemma cleanup_closes_connection:
  "browser s = Some (Connected port) \<Longrightarrow> videoPath s = None \<Longrightarrow> connect_mode opts \<Longrightarrow>
   Call (BrowserClose (Connected port)) \<in> set (events (snd (cleanup env opts s)))"
  by (cases "close env")
     (simp_all add: cleanup_def clear_timeouts_def stop_video_def read_def skip_def
       close_browser_def await_def)

text \<open>Once connected, the run's \<open>finally\<close> block calls \<open>close\<close> on the connection.\<close>

lemma connection_is_closed:
  assumes "connectTo opts = Some port" "port \<noteq> 0" "connectOverCDP env = None"
    "videoPath s0 = None"
    and r: "run cfg env query opts0 =
      try_catch (try_finally (try_catch (body cfg env u opts) report_error) (cleanup env opts))
        (\<lambda>error. yield (PlaywrightCheckError (error_message error))) s0"
  shows "BrowserClose (Connected port) \<in> set (called (trace cfg env query opts0))"
proof -
  let ?P = "\<lambda>s. browser s = Some (Connected port) \<and> videoPath s = None"
  let ?G = "try_catch (body cfg env u opts) report_error"
  let ?M = "\<lambda>s. Call (BrowserClose (Connected port)) \<in> set (events s)"
  have cm: "connect_mode opts"
    using assms(1,2) by (simp add: connect_mode_def truthy_number_def)
  have "?P (snd (connect_browser env port s0))"
    using assms(4) by (simp add: connect_browser_ok assms(3))
  then have "?P (snd (acquire_connect env opts port s0))"
    unfolding acquire_connect_def
    by (rule post_steps) (rule connection_kept_connect_rest)
  then have "?P (snd (acquire cfg env opts s0))"
    by (simp only: acquire_connect_mode [OF assms(1,2)])
  then have "?P (snd (body cfg env u opts s0))"
    unfolding body_def by (rule post_steps) (rule session_kept_use)
  then have "?P (snd (?G s0))"
    by (rule post_try_catch) (rule session_kept_report_error)
  then have "?M (snd (cleanup env opts (snd (?G s0))))"
    using cm by (simp add: cleanup_closes_connection)
  then have "?M (snd (try_finally ?G (cleanup env opts) s0))"
    by (simp only: snd_try_finally)
  then have "?M (snd (try_catch (try_finally ?G (cleanup env opts))
      (\<lambda>error. yield (PlaywrightCheckError (error_message error))) s0))"
    by (rule post_try_catch) (intro preserves_yield, simp)
  then show ?thesis
    by (simp add: called_iff trace_def r)
qed

text \<open>
  C2, as amended. In every connect-mode run on the locator \<open>current\<close>, whatever the
  collaborators do: no navigation call is made, no \<open>Browser closed.\<close> item is emitted and
  the only close is that of the connection handle. When the availability checks pass and
  no video is requested, the emitted sequence begins with the connection message, and
  once the connection is made cleanup closes the connection handle on every exit path.
  When the connection, the page and the collectors are obtained, the sequence continues
  with \<open>Using existing page...\<close> if the attached context had pages, and then with
  \<open>Using current page at <url>...\<close>.
\<close>

theorem connect_current_run:
  "connectTo opts = Some port \<and> port \<noteq> 0 \<and> url (resolve_url query opts) = Some ''current'' \<longrightarrow>
     (\<forall>c \<in> set (called (trace cfg env query opts)). \<not> navigation_call c) \<and>
     BrowserClosed \<notin> set (yielded (trace cfg env query opts)) \<and>
     (\<forall>h. BrowserClose h \<in> set (called (trace cfg env query opts)) \<longrightarrow> h = Connected port) \<and>
     (ensurePlaywright env = None \<and> ensurePlaywrightBrowsers env = None \<and>
      \<not> truthy_string (video opts) \<longrightarrow>
        (\<exists>rest. yielded (trace cfg env query opts) = Connecting port # rest) \<and>
        (connectOverCDP env = None \<longrightarrow>
           BrowserClose (Connected port) \<in> set (called (trace cfg env query opts))) \<and>
        (connectOverCDP env = None \<and> setViewportSize env = None \<and>
         \<not> isl (setupConsoleLogging env) \<and> \<not> isl (setupNetworkMonitoring env) \<longrightarrow>
           (contexts env = Context ps # cs \<and> ps \<noteq> [] \<and> select_existing_page ps = Some pg \<longrightarrow>
              (\<exists>rest. yielded (trace cfg env query opts) =
                 Connecting port # UsingExistingPage # UsingCurrentPage (page_url pg) # rest)) \<and>
           ((contexts env = [] \<and> newContext env = None \<or> contexts env = Context [] # cs) \<and>
            newPage env = Inr pg \<longrightarrow>
              (\<exists>rest. yielded (trace cfg env query opts) =
                 Connecting port # UsingCurrentPage (page_url pg) # rest))))"
  (is "_ \<longrightarrow> ?S \<and> ?N \<and> ?K \<and> (?F \<longrightarrow> ?D \<and> ?CL \<and> (?A \<longrightarrow> (?X \<longrightarrow> ?XE) \<and> (?Y \<longrightarrow> ?YE)))")
proof (intro impI)
  assume h: "connectTo opts = Some port \<and> port \<noteq> 0 \<and>
    url (resolve_url query opts) = Some ''current''"
  let ?opts = "with_defaults (resolve_url query opts)"
  let ?h = "\<lambda>error. yield (PlaywrightCheckError (error_message error))"
  have cm: "connect_mode ?opts" "connect_mode opts"
    using h by (simp_all add: connect_mode_def truthy_number_def)
  have p: "connectTo ?opts = Some port" using h by simp
  have pn: "port \<noteq> 0" using h by simp
  have "list_all (allowed_on_current port) (trace cfg env query opts)"
    using current_execute [of opts port query cfg env] h
    by (simp add: preserves_def trace_def run_def initial_state_def)
  then have safe: "?S \<and> ?N \<and> ?K" by (rule allowed_trace)
  have rest: "?D \<and> ?CL \<and> (?A \<longrightarrow> (?X \<longrightarrow> ?XE) \<and> (?Y \<longrightarrow> ?YE))" if f: ?F
  proof -
    have r: "run cfg env query opts =
        try_catch (try_finally (try_catch (body cfg env ''current'' ?opts) report_error)
          (cleanup env ?opts)) ?h checked_state"
      using f h by (intro run_reaches_body) simp_all
    have y0: "yielded (events checked_state) = []"
      by (simp add: checked_state_def initial_state_def)
    have d: ?D
    proof -
      have "\<exists>rest. yielded (trace cfg env query opts) = [Connecting port] @ rest"
        by (rule grows_after_body [where Q = "\<lambda>es. \<exists>rest. yielded es = [Connecting port] @ rest",
              OF _ r connecting_first [OF p pn y0]])
           (rule yielded_prefix_grows)
      then show ?thesis by simp
    qed
    have e: "\<exists>rest. yielded (trace cfg env query opts) = (ms @ [UsingCurrentPage (page_url pg)]) @ rest"
      if a: "fst (acquire_connect env ?opts port checked_state) = None \<and>
          page (snd (acquire_connect env ?opts port checked_state)) = Some pg \<and>
          yielded (events (snd (acquire_connect env ?opts port checked_state))) = ms"
        and c: "\<not> isl (setupConsoleLogging env)" "\<not> isl (setupNetworkMonitoring env)"
      for ms
    proof -
      have q: "acquire cfg env ?opts = acquire_connect env ?opts port"
        using p h by (intro acquire_connect_mode) simp_all
      have "\<exists>rest. yielded (events (snd (body cfg env ''current'' ?opts checked_state))) =
          (ms @ [UsingCurrentPage (page_url pg)]) @ rest"
        using a c by (intro current_prefix cm) (simp_all add: q)
      then show ?thesis
        by (rule grows_after_body
            [where Q = "\<lambda>es. \<exists>rest. yielded es = (ms @ [UsingCurrentPage (page_url pg)]) @ rest",
             OF _ r, rotated])
           (rule yielded_prefix_grows)
    qed
    have x: ?XE if a: ?A and b: ?X
    proof -
      have "fst (acquire_connect env ?opts port checked_state) = None \<and>
          page (snd (acquire_connect env ?opts port checked_state)) = Some pg \<and>
          yielded (events (snd (acquire_connect env ?opts port checked_state))) =
            yielded (events checked_state) @ [Connecting port, UsingExistingPage]"
        using a b
          acquire_connect_existing [where env = env and ps = ps and cs = cs and pg = pg
            and opts = ?opts and port = port and s = checked_state]
        by blast
      then show ?thesis
        using e [of "[Connecting port, UsingExistingPage]"] a y0 by simp
    qed
    have y: ?YE if a: ?A and b: ?Y
    proof -
      have "fst (acquire_connect env ?opts port checked_state) = None \<and>
          page (snd (acquire_connect env ?opts port checked_state)) = Some pg \<and>
          yielded (events (snd (acquire_connect env ?opts port checked_state))) =
            yielded (events checked_state) @ [Connecting port]"
        using a b
          acquire_connect_new [where env = env and cs = cs and pg = pg
            and opts = ?opts and port = port and s = checked_state]
        by blast
      then show ?thesis
        using e [of "[Connecting port]"] a y0 by simp
    qed
    have cl: ?CL
    proof
      assume "connectOverCDP env = None"
      then show "BrowserClose (Connected port) \<in> set (called (trace cfg env query opts))"
        by (intro connection_is_closed [OF p pn _ _ r])
          (simp_all add: checked_state_def initial_state_def)
    qed
    show ?thesis using d cl x y by blast
  qed
  show "?S \<and> ?N \<and> ?K \<and> (?F \<longrightarrow> ?D \<and> ?CL \<and> (?A \<longrightarrow> (?X \<longrightarrow> ?XE) \<and> (?Y \<longrightarrow> ?YE)))"
    using safe rest by blast
qed

theorem connect_current_run_witness:
  "BrowserClosed \<notin> set (yielded (trace no_config quiet_env []
     (no_options\<lparr>url := Some ''current'', connectTo := Some 9222\<rparr>))) \<and>
   (\<exists>rest. yielded (trace no_config quiet_env []
     (no_options\<lparr>url := Some ''current'', connectTo := Some 9222\<rparr>)) =
     Connecting 9222 # UsingCurrentPage ''about:blank'' # rest) \<and>
   called (trace no_config quiet_env []
     (no_options\<lparr>url := Some ''current'', connectTo := Some 9222\<rparr>)) =
     [EnsurePlaywright, EnsurePlaywrightBrowsers, ConnectOverCDP 9222, NewContext None, NewPage,
      SetupConsoleLogging, SetupNetworkMonitoring, OutputMessages, CaptureScreenshot,
      BrowserClose (Connected 9222)]"
proof -
  have "called (trace no_config quiet_env []
     (no_options\<lparr>url := Some ''current'', connectTo := Some 9222\<rparr>)) =
     [EnsurePlaywright, EnsurePlaywrightBrowsers, ConnectOverCDP 9222, NewContext None, NewPage,
      SetupConsoleLogging, SetupNetworkMonitoring, OutputMessages, CaptureScreenshot,
      BrowserClose (Connected 9222)]"
    by (simp add: run_eval)
  then show ?thesis
    using connect_current_run [of "no_options\<lparr>url := Some ''current'', connectTo := Some 9222\<rparr>"
        9222 "[]" no_config quiet_env "[]" "[]" blank_page]
    by (simp add: resolve_url_def truthy_string_def no_options_def quiet_env_def blank_page_def)
qed

text \<open>
  C2 as stated fails: when the attached context has a page, \<open>Using existing page...\<close>
  comes between the connection message and \<open>Using current page at ...\<close>; and when the
  connection is refused, the connection message is followed by the error report only.
\<close>

theorem connect_current_other_items:
  "yielded (trace no_config
     (quiet_env\<lparr>contexts := [Context [Page 1 ''https://a.test/'']]\<rparr>) []
     (no_options\<lparr>url := Some ''current'', connectTo := Some 9222\<rparr>)) =
     [Connecting 9222, UsingExistingPage, UsingCurrentPage ''https://a.test/''] \<and>
   yielded (trace no_config
     (quiet_env\<lparr>connectOverCDP := Some (Error ''connect ECONNREFUSED'')\<rparr>) []
     (no_options\<lparr>url := Some ''current'', connectTo := Some 9222\<rparr>)) =
     [Connecting 9222, BrowserCommandError ''connect ECONNREFUSED'']"
  by (simp add: run_eval select_existing_page_def starts_with_def)

end
